theory Spec2Isabelle
  imports Complex_Main "HOL-Library.Signed_Division" "HOL-Library.Log_Nat" "HOL-Library.Word"
begin

section \<open>PortHunter: a shallow embedding of main.go\<close>

text \<open>
  Go strings are modelled as HOL strings, one \<^typ>\<open>char\<close> per character, for the
  characters up to code point 255 that \<^typ>\<open>char\<close> covers. Go maps are partial functions;
  a lookup of a missing key gives the zero value of the element type. Where the program
  ranges over a map, Go fixes no order: the model takes the order of the keys as an
  argument and the theorems hold for every order that enumerates the keys once each.
\<close>

subsection \<open>Errors\<close>

text \<open>An error value carries its message, as Go's \<open>errors.New\<close>; a run-time panic is kept apart.\<close>

datatype error = Error string | Panic string

text \<open>\<open>err.Error()\<close>, which is what package fmt prints for an error.\<close>

fun message :: "error \<Rightarrow> string" where
  "message (Error msg) = msg"
| "message (Panic msg) = ''panic: '' @ msg"

subsection \<open>The functions of package strings that the program calls\<close>

text \<open>\<open>unicode.IsSpace\<close> on the Latin-1 range: tab, newline, vertical tab, form feed,
  carriage return, space, U+0085 and U+00A0.\<close>

definition isSpace :: "char \<Rightarrow> bool" where
  "isSpace c \<longleftrightarrow> c \<in> {CHR 0x09, CHR 0x0A, CHR 0x0B, CHR 0x0C, CHR 0x0D, CHR 0x20, CHR 0x85, CHR 0xA0}"

text \<open>\<open>strings.TrimSpace\<close>: leading and trailing white space removed.\<close>

definition TrimSpace :: "string \<Rightarrow> string" where
  "TrimSpace s = rev (dropWhile isSpace (rev (dropWhile isSpace s)))"

text \<open>\<open>strings.Trim(s, cutset)\<close>: leading and trailing characters of the cutset removed.\<close>

definition Trim :: "string \<Rightarrow> string \<Rightarrow> string" where
  "Trim s cutset = rev (dropWhile (\<lambda>c. c \<in> set cutset) (rev (dropWhile (\<lambda>c. c \<in> set cutset) s)))"

text \<open>\<open>strings.Fields\<close>: the maximal runs of characters that are not white space, in order.
  \<open>fields_from cur s\<close> scans \<open>s\<close> with the field begun so far in \<open>cur\<close>.\<close>

fun fields_from :: "string \<Rightarrow> string \<Rightarrow> string list" where
  "fields_from cur [] = (if cur = [] then [] else [cur])"
| "fields_from cur (c # cs) =
     (if isSpace c then (if cur = [] then fields_from [] cs else cur # fields_from [] cs)
      else fields_from (cur @ [c]) cs)"

definition Fields :: "string \<Rightarrow> string list" where
  "Fields s = fields_from [] s"

text \<open>\<open>strings.Split(s, "\n")\<close>: the pieces between newlines; \<open>n\<close> newlines give \<open>n + 1\<close>
  pieces, and the empty string gives one empty piece.\<close>

fun split_from :: "string \<Rightarrow> string \<Rightarrow> string list" where
  "split_from cur [] = [cur]"
| "split_from cur (c # cs) =
     (if c = CHR 0x0A then cur # split_from [] cs else split_from (cur @ [c]) cs)"

definition SplitLines :: "string \<Rightarrow> string list" where
  "SplitLines s = split_from [] s"

definition HasPrefix :: "string \<Rightarrow> string \<Rightarrow> bool" where
  "HasPrefix s pre \<longleftrightarrow> length s \<ge> length pre \<and> take (length pre) s = pre"

fun Contains :: "string \<Rightarrow> string \<Rightarrow> bool" where
  "Contains [] sub = (sub = [])"
| "Contains (c # cs) sub = (HasPrefix (c # cs) sub \<or> Contains cs sub)"

subsection \<open>ParseNmapOutput\<close>

type_synonym ports = "string \<rightharpoonup> string list"

text \<open>\<open>m[k]\<close> on a \<open>map[string][]string\<close>: the nil slice for a missing key.\<close>

definition lookup :: "ports \<Rightarrow> string \<Rightarrow> string list" where
  "lookup m k = (case m k of None \<Rightarrow> [] | Some v \<Rightarrow> v)"

text \<open>\<open>fmt.Sprintf("%s [%s] (%s)", port, state, service)\<close>.\<close>

definition port_entry :: "string \<Rightarrow> string \<Rightarrow> string \<Rightarrow> string" where
  "port_entry port state service = port @ '' ['' @ state @ ''] ('' @ service @ '')''"

text \<open>The body of the loop over the lines, on the pair of \<open>results\<close> and \<open>currentIP\<close>.
  The index \<open>parts[len(parts)-1]\<close> panics when \<open>parts\<close> is empty.\<close>

definition parse_line :: "string \<Rightarrow> ports \<times> string \<Rightarrow> error + ports \<times> string" where
  "parse_line raw st =
     (case st of (results, currentIP) \<Rightarrow>
        let line = TrimSpace raw in
        if HasPrefix line ''Nmap scan report for '' then
          (let parts = Fields line in
           if parts = [] then Inl (Panic ''index out of range [-1]'')
           else Inr (results, Trim (parts ! (length parts - 1)) ''()''))
        else if Contains line ''/tcp'' \<and> currentIP \<noteq> [] then
          (let cols = Fields line in
           if length cols \<ge> 3 then
             Inr (results(currentIP \<mapsto>
                    lookup results currentIP @ [port_entry (cols ! 0) (cols ! 1) (cols ! 2)]),
                  currentIP)
           else Inr (results, currentIP))
        else Inr (results, currentIP))"

fun parse_lines :: "string list \<Rightarrow> ports \<times> string \<Rightarrow> error + ports \<times> string" where
  "parse_lines [] st = Inr st"
| "parse_lines (l # ls) st =
     (case parse_line l st of Inl e \<Rightarrow> Inl e | Inr st' \<Rightarrow> parse_lines ls st')"

text \<open>The state of the parser after the whole text: the mapping and the current host.\<close>

definition parse_state :: "string \<Rightarrow> error + ports \<times> string" where
  "parse_state output = parse_lines (SplitLines output) (Map.empty, [])"

definition ParseNmapOutput :: "string \<Rightarrow> error + ports" where
  "ParseNmapOutput output =
     (case parse_state output of Inl e \<Rightarrow> Inl e | Inr (results, currentIP) \<Rightarrow> Inr results)"

subsection \<open>DiffPorts\<close>

text \<open>A \<open>map[string]bool\<close> used as a set; \<open>m[p]\<close> is \<open>false\<close> for a missing key.\<close>

type_synonym strset = "string \<rightharpoonup> bool"

definition member :: "strset \<Rightarrow> string \<Rightarrow> bool" where
  "member m p = (case m p of None \<Rightarrow> False | Some b \<Rightarrow> b)"

definition make_set :: "string list \<Rightarrow> strset" where
  "make_set ps = fold (\<lambda>p m. m(p \<mapsto> True)) ps Map.empty"

text \<open>The orders in which \<open>range\<close> may visit a map: every key once.\<close>

definition range_order :: "('k \<rightharpoonup> 'v) \<Rightarrow> 'k list \<Rightarrow> bool" where
  "range_order m ks \<longleftrightarrow> distinct ks \<and> set ks = dom m"

text \<open>\<open>DiffPorts (kn, ko) old new\<close>: \<open>kn\<close> is the order of the range over \<open>newSet\<close>,
  \<open>ko\<close> the order of the range over \<open>oldSet\<close>.\<close>

definition DiffPorts :: "string list \<times> string list \<Rightarrow> string list \<Rightarrow> string list
    \<Rightarrow> string list \<times> string list" where
  "DiffPorts ord old new =
     (let oldSet = make_set old;
          newSet = make_set new;
          added = fold (\<lambda>p added. if \<not> member oldSet p then added @ [p] else added) (fst ord) [];
          removed = fold (\<lambda>p removed. if \<not> member newSet p then removed @ [p] else removed) (snd ord) []
      in (added, removed))"

subsection \<open>Decimal output of integers\<close>

text \<open>The verb \<open>%d\<close> of package fmt.\<close>

fun digits :: "nat \<Rightarrow> string" where
  "digits n = (if n < 10 then [''0123456789'' ! n] else digits (n div 10) @ [''0123456789'' ! (n mod 10)])"

declare digits.simps [simp del]

definition fmt_d :: "int \<Rightarrow> string" where
  "fmt_d i = (if i < 0 then CHR ''-'' # digits (nat (- i)) else digits (nat i))"

subsection \<open>Snapshots, the file system and SaveScan\<close>

record ScanResult =
  DateTime :: string
  Ports :: ports

definition scanFolder :: string where
  "scanFolder = ''scan_data''"

definition scanFile :: string where
  "scanFile = scanFolder @ ''/previous_scan.json''"

definition backupScanFile :: string where
  "backupScanFile = scanFolder @ ''/previous_previous_scan.json''"

text \<open>The file system as the program sees it: the directories that exist and the contents of
  the regular files.\<close>

record filesystem =
  dirs :: "string set"
  files :: "string \<rightharpoonup> string"

text \<open>\<open>os.Stat\<close> succeeds on a path that names a directory or a file.\<close>

definition Stat :: "filesystem \<Rightarrow> string \<Rightarrow> bool" where
  "Stat fs p \<longleftrightarrow> p \<in> dirs fs \<or> files fs p \<noteq> None"

text \<open>The directory part of a path; empty for a name in the working directory.\<close>

definition parent :: "string \<Rightarrow> string" where
  "parent p = rev (drop 1 (dropWhile (\<lambda>c. c \<noteq> CHR ''/'') (rev p)))"

definition dir_exists :: "filesystem \<Rightarrow> string \<Rightarrow> bool" where
  "dir_exists fs d \<longleftrightarrow> d = [] \<or> d \<in> dirs fs"

text \<open>The reason the system gives when the directory part of a path cannot be used.\<close>

definition dir_errno :: "filesystem \<Rightarrow> string \<Rightarrow> string" where
  "dir_errno fs d = (if files fs d \<noteq> None then ''not a directory'' else ''no such file or directory'')"

text \<open>A path is under a directory when it is the directory or lies below it.\<close>

definition under :: "string \<Rightarrow> string \<Rightarrow> bool" where
  "under d p \<longleftrightarrow> p = d \<or> HasPrefix p (d @ ''/'')"

definition Mkdir :: "string \<Rightarrow> filesystem \<Rightarrow> error option \<times> filesystem" where
  "Mkdir p fs =
     (if Stat fs p then (Some (Error (''mkdir '' @ p @ '': file exists'')), fs)
      else if \<not> dir_exists fs (parent p) then
        (Some (Error (''mkdir '' @ p @ '': '' @ dir_errno fs (parent p))), fs)
      else (None, fs\<lparr>dirs := insert p (dirs fs)\<rparr>))"

text \<open>\<open>os.Rename\<close>. Go refuses a new name that is a directory before it calls the system.
  The system then moves a regular file onto the new name, replacing a regular file there,
  and moves a directory, with all that lies below it, to a new name that does not exist.\<close>

definition Rename :: "string \<Rightarrow> string \<Rightarrow> filesystem \<Rightarrow> error option \<times> filesystem" where
  "Rename src dst fs =
     (if dst \<in> dirs fs then
        (if \<not> Stat fs src then
           (Some (Error (''rename '' @ src @ '' '' @ dst @ '': no such file or directory'')), fs)
         else (Some (Error (''rename '' @ src @ '' '' @ dst @ '': file exists'')), fs))
      else
        (case files fs src of
           Some d \<Rightarrow>
             if \<not> dir_exists fs (parent dst) then
               (Some (Error (''rename '' @ src @ '' '' @ dst @ '': '' @ dir_errno fs (parent dst))), fs)
             else (None, fs\<lparr>files := (files fs)(src := None, dst \<mapsto> d)\<rparr>)
         | None \<Rightarrow>
             if src \<notin> dirs fs then
               (Some (Error (''rename '' @ src @ '' '' @ dst @ '': no such file or directory'')), fs)
             else if files fs dst \<noteq> None then
               (Some (Error (''rename '' @ src @ '' '' @ dst @ '': not a directory'')), fs)
             else if under src dst then
               (Some (Error (''rename '' @ src @ '' '' @ dst @ '': invalid argument'')), fs)
             else if \<not> dir_exists fs (parent dst) then
               (Some (Error (''rename '' @ src @ '' '' @ dst @ '': '' @ dir_errno fs (parent dst))), fs)
             else
               (None,
                fs\<lparr>dirs := (\<lambda>p. if under src p then dst @ drop (length src) p else p) ` dirs fs,
                   files := (\<lambda>q. if under dst q then files fs (src @ drop (length dst) q)
                                   else if under src q then None else files fs q)\<rparr>)))"

definition WriteFile :: "string \<Rightarrow> string \<Rightarrow> filesystem \<Rightarrow> error option \<times> filesystem" where
  "WriteFile p d fs =
     (if p \<in> dirs fs then (Some (Error (''open '' @ p @ '': is a directory'')), fs)
      else if \<not> dir_exists fs (parent p) then
        (Some (Error (''open '' @ p @ '': '' @ dir_errno fs (parent p))), fs)
      else (None, fs\<lparr>files := (files fs)(p \<mapsto> d)\<rparr>))"

definition ReadFile :: "string \<Rightarrow> filesystem \<Rightarrow> error + string" where
  "ReadFile p fs =
     (case files fs p of
        Some d \<Rightarrow> Inr d
      | None \<Rightarrow>
          if p \<in> dirs fs then Inl (Error (''read '' @ p @ '': is a directory''))
          else if \<not> dir_exists fs (parent p) then
            Inl (Error (''open '' @ p @ '': '' @ dir_errno fs (parent p)))
          else Inl (Error (''open '' @ p @ '': no such file or directory'')))"

text \<open>What the program takes from its libraries and from the machine it runs on:
  \<open>json.MarshalIndent\<close> and \<open>json.Unmarshal\<close> on a \<open>ScanResult\<close>, \<open>time.Parse\<close> with the
  layout RFC 3339 (an instant is its count of nanoseconds), the clock as
  \<open>time.Now().Format(time.RFC3339)\<close>, and the run of an external command, which gives the
  error of \<open>cmd.Run\<close> and the text written to the two output streams.\<close>

record Cmd =
  Path :: string
  Args :: "string list"

record env =
  marshal :: "ScanResult \<Rightarrow> error + string"
  unmarshal :: "string \<Rightarrow> error + ScanResult"
  parse_time :: "string \<Rightarrow> error + int"
  now :: string
  run_cmd :: "Cmd \<Rightarrow> error option \<times> string"

definition EnsureScanFolderExists :: "filesystem \<Rightarrow> error option \<times> filesystem" where
  "EnsureScanFolderExists fs = (if \<not> Stat fs scanFolder then Mkdir scanFolder fs else (None, fs))"

definition SaveScan :: "env \<Rightarrow> ScanResult \<Rightarrow> filesystem \<Rightarrow> error option \<times> filesystem" where
  "SaveScan E scan fs =
     (case EnsureScanFolderExists fs of
        (Some err, fs1) \<Rightarrow> (Some err, fs1)
      | (None, fs1) \<Rightarrow>
          let fs2 = (if Stat fs1 scanFile then snd (Rename scanFile backupScanFile fs1) else fs1) in
          (case marshal E scan of
             Inl err \<Rightarrow> (Some err, fs2)
           | Inr data \<Rightarrow> WriteFile scanFile data fs2))"

definition LoadPreviousScan :: "env \<Rightarrow> filesystem \<Rightarrow> error + ScanResult" where
  "LoadPreviousScan E fs =
     (case ReadFile scanFile fs of Inl err \<Rightarrow> Inl err | Inr data \<Rightarrow> unmarshal E data)"

subsection \<open>RunScan\<close>

text \<open>\<open>exec.Command(name, arg...)\<close>: the command to run is \<open>name\<close>, and its argument vector
  is \<open>name\<close> followed by \<open>arg\<close>.\<close>

definition exec_Command :: "string \<Rightarrow> string list \<Rightarrow> Cmd" where
  "exec_Command name arg = \<lparr>Path = name, Args = name # arg\<rparr>"

text \<open>The first part of \<open>RunScan\<close>, up to the call of \<open>exec.Command\<close>: the command that the
  program builds from its two flags. \<open>args[0]\<close> panics on an empty slice and \<open>args[1:]\<close> drops
  the first element.\<close>

definition scan_command :: "string \<Rightarrow> string \<Rightarrow> error + Cmd" where
  "scan_command command0 target0 =
     (let command = TrimSpace command0;
          target = TrimSpace target0 in
      if command = [] then Inl (Error ''scan command cannot be empty'')
      else if target = [] then Inl (Error ''target cannot be empty'')
      else
        let args = Fields command in
        if args = [] then Inl (Panic ''index out of range [0]'')
        else
          let executable = (if args ! 0 = ''sudo'' \<and> length args > 1 then args ! 1 else args ! 0);
              args' = args @ [target]
          in Inr (exec_Command executable (drop 1 args')))"

text \<open>The rest of \<open>RunScan\<close>: run the command, parse what it wrote, stamp the result. (The
  spinner only writes to the terminal while the command runs.)\<close>

definition RunScan :: "env \<Rightarrow> string \<Rightarrow> string \<Rightarrow> error + ScanResult" where
  "RunScan E command target =
     (case scan_command command target of
        Inl err \<Rightarrow> Inl err
      | Inr cmd \<Rightarrow>
          (case run_cmd E cmd of
             (Some err, out) \<Rightarrow>
               Inl (Error (''scan failed: '' @ message err @ ''\<newline>Output: '' @ out))
           | (None, out) \<Rightarrow>
               (case ParseNmapOutput out of
                  Inl err \<Rightarrow> Inl err
                | Inr results \<Rightarrow> Inr \<lparr>DateTime = now E, Ports = results\<rparr>)))"

subsection \<open>formatElapsedTime\<close>

text \<open>
  A \<open>time.Duration\<close> is a signed 64-bit count of nanoseconds. Its methods \<open>Hours\<close> and
  \<open>Minutes\<close> compute in \<open>float64\<close>:
  \<^verbatim>\<open>hour := d / Hour; nsec := d % Hour; return float64(hour) + float64(nsec)/(60*60*1e9)\<close>
  A finite \<open>float64\<close> is modelled as the rational it denotes, and every operation rounds its
  exact result to the nearest number with a 53-bit significand, ties to the even one. The
  exponent range is left out: the magnitudes that occur here lie between \<open>2^-42\<close> and \<open>2^28\<close>.
\<close>

text \<open>For \<open>x > 0\<close>, the exponent \<open>e\<close> with \<open>2^e \<le> x < 2^(e+1)\<close>.\<close>

definition ilog2 :: "rat \<Rightarrow> int" where
  "ilog2 x = (if x \<ge> 1 then bitlen \<lfloor>x\<rfloor> - 1 else - bitlen (\<lceil>1 / x\<rceil> - 1))"

definition round_even :: "rat \<Rightarrow> int" where
  "round_even m =
     (let n = \<lfloor>m\<rfloor>; r = m - of_int n in
      if r < 1 / 2 then n else if r > 1 / 2 then n + 1 else if even n then n else n + 1)"

definition round64 :: "rat \<Rightarrow> rat" where
  "round64 x =
     (if x = 0 then 0
      else let u = power_int 2 (ilog2 \<bar>x\<bar> - 52) in sgn x * of_int (round_even (\<bar>x\<bar> / u)) * u)"

text \<open>The conversion \<open>int(f)\<close> of a \<open>float64\<close> discards the fraction.\<close>

definition trunc :: "rat \<Rightarrow> int" where
  "trunc x = (if x \<ge> 0 then \<lfloor>x\<rfloor> else \<lceil>x\<rceil>)"

type_synonym Duration = "64 word"

definition Minute :: int where
  "Minute = 60 * 1000000000"

definition Hour :: int where
  "Hour = 60 * Minute"

text \<open>Go's \<open>/\<close> and \<open>%\<close> on integers truncate towards zero: \<open>sdiv\<close> and \<open>smod\<close>.\<close>

definition Hours :: "Duration \<Rightarrow> rat" where
  "Hours d =
     (let hour = sint d sdiv Hour;
          nsec = sint d smod Hour
      in round64 (round64 (of_int hour) + round64 (round64 (of_int nsec) / (60 * 60 * 1000000000))))"

definition Minutes :: "Duration \<Rightarrow> rat" where
  "Minutes d =
     (let min = sint d sdiv Minute;
          nsec = sint d smod Minute
      in round64 (round64 (of_int min) + round64 (round64 (of_int nsec) / (60 * 1000000000))))"

definition formatElapsedTime :: "Duration \<Rightarrow> string" where
  "formatElapsedTime d =
     (let hours = trunc (Hours d);
          minutes = trunc (Minutes d) smod 60;
          days = hours sdiv 24
      in if days > 0 then fmt_d days @ '' days, '' @ fmt_d (hours smod 24) @ '' hours''
         else if hours > 0 then fmt_d hours @ '' hours, '' @ fmt_d minutes @ '' minutes''
         else fmt_d minutes @ '' minutes'')"

subsection \<open>CompareScans\<close>

text \<open>\<open>t.Sub(u)\<close>: the difference of two instants as a \<open>Duration\<close>, the largest or the smallest
  \<open>Duration\<close> when the difference does not fit.\<close>

definition Sub :: "int \<Rightarrow> int \<Rightarrow> Duration" where
  "Sub t u =
     (let d = t - u in
      if d < - (2 ^ 63) then word_of_int (- (2 ^ 63))
      else if d > 2 ^ 63 - 1 then word_of_int (2 ^ 63 - 1)
      else word_of_int d)"

definition green :: string where
  "green = CHR 0x1B # ''[32m''"

definition red :: string where
  "red = CHR 0x1B # ''[31m''"

definition reset :: string where
  "reset = CHR 0x1B # ''[0m''"

text \<open>The local variables of \<open>CompareScans\<close> that the two loops update, and the text written
  to standard output, one element for each call of package fmt.\<close>

record cmp =
  noChanges :: bool
  totalAdded :: int
  totalRemoved :: int
  out :: "string list"

text \<open>The orders of the ranges over maps in one call of \<open>CompareScans\<close>: over \<open>new.Ports\<close>,
  over \<open>old.Ports\<close>, and for each host the two orders of its call of \<open>DiffPorts\<close>.\<close>

record sched =
  new_order :: "string list"
  old_order :: "string list"
  diff_order :: "string \<Rightarrow> string list \<times> string list"

definition valid_sched :: "sched \<Rightarrow> ScanResult \<Rightarrow> ScanResult \<Rightarrow> bool" where
  "valid_sched S old new \<longleftrightarrow>
     range_order (Ports new) (new_order S) \<and>
     range_order (Ports old) (old_order S) \<and>
     (\<forall>ip \<in> set (new_order S).
        range_order (make_set (lookup (Ports new) ip)) (fst (diff_order S ip)) \<and>
        range_order (make_set (lookup (Ports old) ip)) (snd (diff_order S ip)))"

text \<open>The body of the loop over \<open>new.Ports\<close>.\<close>

definition track_host :: "sched \<Rightarrow> ScanResult \<Rightarrow> ScanResult \<Rightarrow> string \<Rightarrow> cmp \<Rightarrow> cmp" where
  "track_host S old new ip st =
     (let newPorts = lookup (Ports new) ip;
          oldPorts = lookup (Ports old) ip;
          (added, removed) = DiffPorts (diff_order S ip) oldPorts newPorts
      in if length added > 0 \<or> length removed > 0 then
           let st1 = st\<lparr>noChanges := False, out := out st @ [''Changes for '' @ ip @ '':\<newline>'']\<rparr>;
               st2 = (if length added > 0 then
                        st1\<lparr>totalAdded := totalAdded st1 + int (length added),
                            out := out st1 @ [''  [+] Added Ports:\<newline>'']
                              @ map (\<lambda>port. ''    - '' @ green @ port @ reset @ ''\<newline>'') added\<rparr>
                      else st1);
               st3 = (if length removed > 0 then
                        st2\<lparr>totalRemoved := totalRemoved st2 + int (length removed),
                            out := out st2 @ [''  [-] Removed Ports:\<newline>'']
                              @ map (\<lambda>port. ''    - '' @ red @ port @ reset @ ''\<newline>'') removed\<rparr>
                      else st2)
           in st3\<lparr>out := out st3 @ [''\<newline>'']\<rparr>
         else st)"

text \<open>The body of the loop over \<open>old.Ports\<close>.\<close>

definition missing_host :: "ScanResult \<Rightarrow> ScanResult \<Rightarrow> string \<Rightarrow> cmp \<Rightarrow> cmp" where
  "missing_host old new ip st =
     (let oldPorts = lookup (Ports old) ip in
      if Ports new ip = None then
        st\<lparr>noChanges := False,
           totalRemoved := totalRemoved st + int (length oldPorts),
           out := out st @ [''All ports for '' @ ip @ '' removed:\<newline>'']
             @ map (\<lambda>port. ''  [-] '' @ red @ port @ reset @ ''\<newline>'') oldPorts @ [''\<newline>'']\<rparr>
      else st)"

text \<open>The line that reports the elapsed time and the summary line.\<close>

definition elapsed_line :: "Duration \<Rightarrow> string" where
  "elapsed_line elapsed =
     ''\<newline>--- Checking Previous Scan Data (Last scan was '' @ formatElapsedTime elapsed
       @ '' ago) ---\<newline>\<newline>''"

definition summary_line :: "int \<Rightarrow> int \<Rightarrow> string" where
  "summary_line a r =
     ''Summary: '' @ fmt_d a @ '' new ports added, '' @ fmt_d r @ '' removed.\<newline>''"

text \<open>The state after the two loops, from the line that reports the elapsed time.\<close>

definition compare_hosts :: "sched \<Rightarrow> ScanResult \<Rightarrow> ScanResult \<Rightarrow> string list \<Rightarrow> cmp" where
  "compare_hosts S old new header =
     fold (missing_host old new) (old_order S)
       (fold (track_host S old new) (new_order S)
          \<lparr>noChanges = True, totalAdded = 0, totalRemoved = 0, out = header\<rparr>)"

definition CompareScans :: "env \<Rightarrow> sched \<Rightarrow> ScanResult \<Rightarrow> ScanResult \<Rightarrow> filesystem
    \<Rightarrow> string list \<times> filesystem" where
  "CompareScans E S old new fs =
     (case parse_time E (DateTime old) of
        Inl err \<Rightarrow> ([''Error parsing old scan time: '' @ message err @ ''\<newline>''], fs)
      | Inr oldTime \<Rightarrow>
          (case parse_time E (DateTime new) of
             Inl err \<Rightarrow> ([''Error parsing new scan time: '' @ message err @ ''\<newline>''], fs)
           | Inr newTime \<Rightarrow>
               let elapsed = Sub newTime oldTime;
                   st = compare_hosts S old new [elapsed_line elapsed]
               in if noChanges st then (out st @ [''No changes detected.\<newline>''], fs)
                  else (out st @ [summary_line (totalAdded st) (totalRemoved st)],
                        snd (SaveScan E new fs))))"

text \<open>\<open>main\<close> from the call of \<open>RunScan\<close> on: the scan, the comparison with the stored
  snapshot when one can be loaded, and the save.\<close>

definition run_main :: "env \<Rightarrow> sched \<Rightarrow> string \<Rightarrow> string \<Rightarrow> filesystem
    \<Rightarrow> string list \<times> filesystem" where
  "run_main E S scanCmd target fs =
     (case RunScan E scanCmd target of
        Inl err \<Rightarrow> ([''Error: '' @ message err @ ''\<newline>''], fs)
      | Inr scan \<Rightarrow>
          let (printed, fs1) =
                (case LoadPreviousScan E fs of
                   Inr prevScan \<Rightarrow> CompareScans E S prevScan scan fs
                 | Inl err \<Rightarrow> ([''No previous scan data found.\<newline>''], fs));
              fs2 = snd (SaveScan E scan fs1)
          in (printed @ [''Scan completed and saved.\<newline>''], fs2))"

subsection \<open>Predicates used in the statements\<close>

text \<open>The diff of one host of the new snapshot, as the first loop of \<open>CompareScans\<close>
  computes it, and the hosts of the old snapshot that the new one lacks, in the order of the
  second loop.\<close>

definition diff_of :: "sched \<Rightarrow> ScanResult \<Rightarrow> ScanResult \<Rightarrow> string \<Rightarrow> string list \<times> string list" where
  "diff_of S old new ip = DiffPorts (diff_order S ip) (lookup (Ports old) ip) (lookup (Ports new) ip)"

definition missing_hosts :: "sched \<Rightarrow> ScanResult \<Rightarrow> string list" where
  "missing_hosts S new = filter (\<lambda>ip. Ports new ip = None) (old_order S)"

text \<open>A store that can be written: the folder exists and neither slot is a directory.\<close>

definition store_ready :: "filesystem \<Rightarrow> bool" where
  "store_ready fs \<longleftrightarrow> scanFolder \<in> dirs fs \<and> scanFile \<notin> dirs fs \<and> backupScanFile \<notin> dirs fs"

text \<open>An environment for the examples: the library functions on the few values the
  examples use.\<close>

definition sample_env :: env where
  "sample_env =
     \<lparr>marshal = (\<lambda>scan. Inr (''{datetime: '' @ DateTime scan @ ''}'')),
      unmarshal = (\<lambda>data. Inl (Error ''unexpected end of JSON input'')),
      parse_time = (\<lambda>s. if s = ''2024-05-01T10:00:00Z'' then Inr 1714557600000000000
                          else if s = ''2024-05-01T11:30:00Z'' then Inr 1714563000000000000
                          else Inl (Error ''cannot parse as RFC 3339'')),
      now = ''2024-05-01T11:30:00Z'',
      run_cmd = (\<lambda>cmd. (None, ''Nmap scan report for router (10.0.0.1)\<newline>80/tcp open http''))\<rparr>"

definition old_scan :: ScanResult where
  "old_scan =
     \<lparr>DateTime = ''2024-05-01T10:00:00Z'',
      Ports = [''10.0.0.1'' \<mapsto> [''80/tcp [open] (http)''],
               ''10.0.0.2'' \<mapsto> [''22/tcp [open] (ssh)'', ''25/tcp [open] (smtp)'']]\<rparr>"

definition new_scan :: ScanResult where
  "new_scan =
     \<lparr>DateTime = ''2024-05-01T11:30:00Z'',
      Ports = [''10.0.0.1'' \<mapsto> [''443/tcp [open] (https)'']]\<rparr>"

definition sample_sched :: sched where
  "sample_sched =
     \<lparr>new_order = [''10.0.0.1''],
      old_order = [''10.0.0.2'', ''10.0.0.1''],
      diff_order = (\<lambda>ip. ([''443/tcp [open] (https)''], [''80/tcp [open] (http)'']))\<rparr>"

definition same_sched :: sched where
  "same_sched =
     \<lparr>new_order = [''10.0.0.1''],
      old_order = [''10.0.0.1''],
      diff_order = (\<lambda>ip. ([''443/tcp [open] (https)''], [''443/tcp [open] (https)'']))\<rparr>"

text \<open>A second run on a network that has not changed: the stored snapshot decodes to the
  one host and the one port that the scanner reports again.\<close>

definition rescan_env :: env where
  "rescan_env =
     sample_env\<lparr>unmarshal :=
       (\<lambda>data. if data = ''{datetime: 2024-05-01T10:00:00Z}''
               then Inr \<lparr>DateTime = ''2024-05-01T10:00:00Z'',
                         Ports = [''10.0.0.1'' \<mapsto> [''80/tcp [open] (http)'']]\<rparr>
               else Inl (Error ''unexpected end of JSON input''))\<rparr>"

definition rescan_sched :: sched where
  "rescan_sched =
     \<lparr>new_order = [''10.0.0.1''],
      old_order = [''10.0.0.1''],
      diff_order = (\<lambda>ip. ([''80/tcp [open] (http)''], [''80/tcp [open] (http)'']))\<rparr>"

definition sample_fs :: filesystem where
  "sample_fs = \<lparr>dirs = {scanFolder}, files = [scanFile \<mapsto> ''{datetime: 2024-05-01T10:00:00Z}'']\<rparr>"

text \<open>The rendering of an elapsed time in the words of the specification, on a count of
  nanoseconds that is not negative: from one day on, the whole days and the whole hours
  that remain after them; else from one hour on, the whole hours and the whole minutes that
  remain after them; else the whole minutes.\<close>

definition spec_formatElapsedTime :: "int \<Rightarrow> string" where
  "spec_formatElapsedTime d =
     (if d \<ge> 24 * Hour then
        fmt_d (d div (24 * Hour)) @ '' days, '' @ fmt_d ((d mod (24 * Hour)) div Hour) @ '' hours''
      else if d \<ge> Hour then
        fmt_d (d div Hour) @ '' hours, '' @ fmt_d ((d mod Hour) div Minute) @ '' minutes''
      else fmt_d (d div Minute) @ '' minutes'')"

text \<open>No host is bound to an empty list.\<close>

definition nonempty_lists :: "ports \<Rightarrow> bool" where
  "nonempty_lists m \<longleftrightarrow> (\<forall>h es. m h = Some es \<longrightarrow> es \<noteq> [])"

section \<open>The output parser\<close>

lemma fields_from_Nil_iff: "fields_from cur s = [] \<longleftrightarrow> cur = [] \<and> (\<forall>c \<in> set s. isSpace c)"
  by (induction s arbitrary: cur) auto

lemma HasPrefix_Cons: "HasPrefix s (p # ps) \<Longrightarrow> \<exists>t. s = p # t"
  by (cases s) (auto simp: HasPrefix_def)

text \<open>A host line begins with a letter, so it has a field and the index of its last field
  is in range: the parser never panics.\<close>

lemma host_line_fields: "HasPrefix line ''Nmap scan report for '' \<Longrightarrow> Fields line \<noteq> []"
proof -
  assume "HasPrefix line ''Nmap scan report for ''"
  then obtain t where "line = CHR ''N'' # t" using HasPrefix_Cons by blast
  moreover have "\<not> isSpace CHR ''N''" by (simp add: isSpace_def)
  ultimately show ?thesis by (simp add: Fields_def fields_from_Nil_iff)
qed

lemma parse_line_total: "\<exists>st'. parse_line raw st = Inr st'"
  by (cases st) (auto simp: parse_line_def Let_def host_line_fields)

lemma parse_lines_append:
  "parse_lines (xs @ ys) st =
     (case parse_lines xs st of Inl e \<Rightarrow> Inl e | Inr st' \<Rightarrow> parse_lines ys st')"
  by (induction xs arbitrary: st) (auto split: sum.splits)

lemma split_from_append:
  "split_from cur (a @ CHR 0x0A # b) = split_from cur a @ split_from [] b"
  by (induction a arbitrary: cur) auto

lemma split_from_no_newline: "CHR 0x0A \<notin> set s \<Longrightarrow> split_from cur s = [cur @ s]"
  by (induction s arbitrary: cur) auto

lemmas parser_evals = parse_state_def SplitLines_def parse_line_def TrimSpace_def HasPrefix_def
  Fields_def isSpace_def Trim_def Let_def lookup_def port_entry_def ParseNmapOutput_def

lemma nonempty_lists_upd: "nonempty_lists m \<Longrightarrow> nonempty_lists (m(k \<mapsto> v @ [x]))"
  by (simp add: nonempty_lists_def)

lemma parse_line_nonempty:
  "nonempty_lists (fst st) \<Longrightarrow> parse_line raw st = Inr st' \<Longrightarrow> nonempty_lists (fst st')"
  by (cases st) (auto simp: parse_line_def Let_def nonempty_lists_upd split: if_splits)

lemma parse_lines_nonempty:
  "nonempty_lists (fst st) \<Longrightarrow> \<exists>st'. parse_lines ls st = Inr st' \<and> nonempty_lists (fst st')"
proof (induction ls arbitrary: st)
  case Nil
  then show ?case by simp
next
  case (Cons l ls)
  obtain st1 where s1: "parse_line l st = Inr st1" using parse_line_total by blast
  with Cons.prems have "nonempty_lists (fst st1)" using parse_line_nonempty by blast
  from Cons.IH [OF this] s1 show ?case by simp
qed

text \<open>
  C10. For every input text, \<open>ParseNmapOutput\<close> returns a mapping (it does not panic), and
  every host that the mapping holds is bound to a list with at least one entry.
\<close>

theorem parsed_hosts_nonempty:
  "\<exists>m. ParseNmapOutput output = Inr m \<and> (\<forall>h es. m h = Some es \<longrightarrow> es \<noteq> [])"
proof -
  have "nonempty_lists (fst (Map.empty :: ports, [] :: string))"
    by (simp add: nonempty_lists_def)
  from parse_lines_nonempty [OF this, of "SplitLines output"]
  obtain st' where "parse_lines (SplitLines output) (Map.empty, []) = Inr st'"
    and "nonempty_lists (fst st')"
    by blast
  then show ?thesis
    by (cases st') (auto simp: ParseNmapOutput_def parse_state_def nonempty_lists_def)
qed

theorem parsed_hosts_nonempty_witness:
  "\<exists>m. ParseNmapOutput ''Nmap scan report for router (10.0.0.1)\<newline>80/tcp open http'' = Inr m \<and>
       m ''10.0.0.1'' = Some [''80/tcp [open] (http)''] \<and> [''80/tcp [open] (http)''] \<noteq> []"
proof -
  have e: "ParseNmapOutput ''Nmap scan report for router (10.0.0.1)\<newline>80/tcp open http''
      = Inr [''10.0.0.1'' \<mapsto> [''80/tcp [open] (http)'']]"
    by (simp add: parser_evals)
  from parsed_hosts_nonempty [of "''Nmap scan report for router (10.0.0.1)\<newline>80/tcp open http''"]
  show ?thesis using e by auto
qed

lemma parse_line_no_host:
  "\<not> HasPrefix (TrimSpace raw) ''Nmap scan report for '' \<Longrightarrow>
   parse_line raw (results, []) = Inr (results, [])"
  by (simp add: parse_line_def Let_def)

lemma parse_lines_no_host:
  "\<forall>l \<in> set ls. \<not> HasPrefix (TrimSpace l) ''Nmap scan report for '' \<Longrightarrow>
   parse_lines ls (results, []) = Inr (results, [])"
  by (induction ls) (auto simp: parse_line_no_host)

text \<open>
  C8. When no line of the input is a host-report line (after trimming, none starts with
  \<open>Nmap scan report for\<close>), \<open>ParseNmapOutput\<close> returns the empty mapping and no error:
  port lines met before any host line are dropped, and so is every other line.
\<close>

theorem no_host_lines_empty:
  assumes "\<forall>l \<in> set (SplitLines output). \<not> HasPrefix (TrimSpace l) ''Nmap scan report for ''"
  shows "ParseNmapOutput output = Inr Map.empty"
  using parse_lines_no_host [OF assms] by (simp add: ParseNmapOutput_def parse_state_def)

theorem no_host_lines_empty_witness:
  "SplitLines ''Starting Nmap 7.94\<newline>80/tcp open http\<newline>\<newline>Nmap done'' =
     [''Starting Nmap 7.94'', ''80/tcp open http'', [], ''Nmap done''] \<and>
   \<not> HasPrefix (TrimSpace ''Starting Nmap 7.94'') ''Nmap scan report for '' \<and>
   \<not> HasPrefix (TrimSpace ''80/tcp open http'') ''Nmap scan report for '' \<and>
   \<not> HasPrefix (TrimSpace []) ''Nmap scan report for '' \<and>
   \<not> HasPrefix (TrimSpace ''Nmap done'') ''Nmap scan report for '' \<and>
   ParseNmapOutput ''Starting Nmap 7.94\<newline>80/tcp open http\<newline>\<newline>Nmap done'' = Inr Map.empty"
proof -
  have s: "SplitLines ''Starting Nmap 7.94\<newline>80/tcp open http\<newline>\<newline>Nmap done'' =
     [''Starting Nmap 7.94'', ''80/tcp open http'', [], ''Nmap done'']"
    by (simp add: SplitLines_def)
  have h: "\<forall>l \<in> set (SplitLines ''Starting Nmap 7.94\<newline>80/tcp open http\<newline>\<newline>Nmap done'').
      \<not> HasPrefix (TrimSpace l) ''Nmap scan report for ''"
    unfolding s by (simp add: TrimSpace_def HasPrefix_def isSpace_def)
  show ?thesis using s h no_host_lines_empty [OF h] by simp
qed

lemma parse_state_append_line:
  assumes "CHR 0x0A \<notin> set line"
  shows "parse_state (pre @ CHR 0x0A # line) =
     (case parse_state pre of Inl e \<Rightarrow> Inl e | Inr st \<Rightarrow> parse_line line st)"
proof -
  have "SplitLines (pre @ CHR 0x0A # line) = SplitLines pre @ [line]"
    using assms by (simp add: SplitLines_def split_from_append split_from_no_newline)
  then show ?thesis
    by (auto simp: parse_state_def parse_lines_append split: sum.splits)
qed

text \<open>
  C7, for lines that are not host-report lines. Let the parser have read the text \<open>pre\<close> and hold a current host \<open>ip\<close>.
  A further line that is not a host-report line and contains \<open>/tcp\<close> is a port line: with
  three fields or more, the entry made of its first three fields (port and protocol, state,
  service) is appended to the entries of \<open>ip\<close> and the fields after the third are ignored;
  with fewer than three fields the mapping is unchanged. The current host stays.
\<close>

theorem port_line_recorded:
  assumes "parse_state pre = Inr (results, ip)" and "ip \<noteq> []"
    and "CHR 0x0A \<notin> set line"
    and "\<not> HasPrefix (TrimSpace line) ''Nmap scan report for ''"
    and "Contains (TrimSpace line) ''/tcp''"
    and "cols = Fields (TrimSpace line)"
  shows "parse_state (pre @ CHR 0x0A # line) =
     Inr (if length cols \<ge> 3
          then (results(ip \<mapsto> lookup results ip @ [port_entry (cols ! 0) (cols ! 1) (cols ! 2)]), ip)
          else (results, ip))"
  using assms by (simp add: parse_state_append_line parse_line_def Let_def)

theorem port_line_recorded_witness:
  "parse_state ''Nmap scan report for router (10.0.0.1)'' = Inr (Map.empty, ''10.0.0.1'') \<and>
   ''10.0.0.1'' \<noteq> [] \<and>
   CHR 0x0A \<notin> set ''80/tcp  open  http  Apache httpd'' \<and>
   \<not> HasPrefix (TrimSpace ''80/tcp  open  http  Apache httpd'') ''Nmap scan report for '' \<and>
   Contains (TrimSpace ''80/tcp  open  http  Apache httpd'') ''/tcp'' \<and>
   parse_state (''Nmap scan report for router (10.0.0.1)'' @ CHR 0x0A # ''80/tcp  open  http  Apache httpd'') =
     Inr ([''10.0.0.1'' \<mapsto> [''80/tcp [open] (http)'']], ''10.0.0.1'')"
proof -
  have h1: "parse_state ''Nmap scan report for router (10.0.0.1)'' = Inr (Map.empty, ''10.0.0.1'')"
    by (simp add: parser_evals)
  have h2: "''10.0.0.1'' \<noteq> []" by simp
  have h3: "CHR 0x0A \<notin> set ''80/tcp  open  http  Apache httpd''" by simp
  have h4: "\<not> HasPrefix (TrimSpace ''80/tcp  open  http  Apache httpd'') ''Nmap scan report for ''"
    by (simp add: parser_evals)
  have h5: "Contains (TrimSpace ''80/tcp  open  http  Apache httpd'') ''/tcp''"
    by (simp add: parser_evals)
  have h6: "[''80/tcp'', ''open'', ''http'', ''Apache'', ''httpd''] =
      Fields (TrimSpace ''80/tcp  open  http  Apache httpd'')"
    by (simp add: parser_evals)
  show ?thesis
    using h1 h2 h3 h4 h5 port_line_recorded [OF h1 h2 h3 h4 h5 h6]
    by (simp add: lookup_def port_entry_def)
qed

text \<open>
  The condition on the line is needed, for a host-report line can contain the marker: with a
  current host set, the line \<open>Nmap scan report for web/tcp\<close> has five fields and contains
  \<open>/tcp\<close>, and the parser takes it as a host line (the test for a host line comes first).
  It records no entry and makes \<open>web/tcp\<close> the current host.
\<close>

theorem host_line_with_marker_counterexample:
  "parse_state ''Nmap scan report for 10.0.0.1'' = Inr (Map.empty, ''10.0.0.1'') \<and>
   Contains (TrimSpace ''Nmap scan report for web/tcp'') ''/tcp'' \<and>
   length (Fields (TrimSpace ''Nmap scan report for web/tcp'')) \<ge> 3 \<and>
   parse_state (''Nmap scan report for 10.0.0.1'' @ CHR 0x0A # ''Nmap scan report for web/tcp'') =
     Inr (Map.empty, ''web/tcp'')"
  by (simp add: parser_evals)

section \<open>The comparison\<close>

lemmas sample_evals = sample_env_def old_scan_def new_scan_def sample_sched_def sample_fs_def

lemma sample_valid: "valid_sched sample_sched old_scan new_scan"
  by (auto simp: valid_sched_def range_order_def make_set_def lookup_def sample_evals)

lemma sample_diff:
  "diff_of sample_sched old_scan new_scan ''10.0.0.1'' =
     ([''443/tcp [open] (https)''], [''80/tcp [open] (http)''])"
  by (simp add: diff_of_def DiffPorts_def make_set_def member_def lookup_def Let_def sample_evals)

lemma track_host_noChanges:
  "noChanges (track_host S old new ip st) = (noChanges st \<and> diff_of S old new ip = ([], []))"
  by (auto simp: track_host_def diff_of_def Let_def split: prod.splits)

lemma track_host_totalAdded:
  "totalAdded (track_host S old new ip st) = totalAdded st + int (length (fst (diff_of S old new ip)))"
  by (auto simp: track_host_def diff_of_def Let_def split: prod.splits)

lemma track_host_totalRemoved:
  "totalRemoved (track_host S old new ip st) = totalRemoved st + int (length (snd (diff_of S old new ip)))"
  by (auto simp: track_host_def diff_of_def Let_def split: prod.splits)

lemma fold_track_host:
  "noChanges (fold (track_host S old new) ks st) = (noChanges st \<and> (\<forall>ip \<in> set ks. diff_of S old new ip = ([], [])))"
  "totalAdded (fold (track_host S old new) ks st) =
     totalAdded st + sum_list (map (\<lambda>h. int (length (fst (diff_of S old new h)))) ks)"
  "totalRemoved (fold (track_host S old new) ks st) =
     totalRemoved st + sum_list (map (\<lambda>h. int (length (snd (diff_of S old new h)))) ks)"
  by (induction ks arbitrary: st)
     (auto simp: track_host_noChanges track_host_totalAdded track_host_totalRemoved)

lemma missing_host_fields:
  "noChanges (missing_host old new ip st) = (noChanges st \<and> Ports new ip \<noteq> None)"
  "totalAdded (missing_host old new ip st) = totalAdded st"
  "totalRemoved (missing_host old new ip st) =
     totalRemoved st + (if Ports new ip = None then int (length (lookup (Ports old) ip)) else 0)"
  by (auto simp: missing_host_def Let_def)

lemma fold_missing_host:
  "noChanges (fold (missing_host old new) ks st) = (noChanges st \<and> (\<forall>ip \<in> set ks. Ports new ip \<noteq> None))"
  "totalAdded (fold (missing_host old new) ks st) = totalAdded st"
  "totalRemoved (fold (missing_host old new) ks st) =
     totalRemoved st
       + sum_list (map (\<lambda>h. int (length (lookup (Ports old) h))) (filter (\<lambda>h. Ports new h = None) ks))"
  by (induction ks arbitrary: st) (auto simp: missing_host_fields)

lemma missing_host_out_mono: "set (out st) \<subseteq> set (out (missing_host old new ip st))"
  by (auto simp: missing_host_def Let_def)

lemma fold_missing_host_out_mono: "set (out st) \<subseteq> set (out (fold (missing_host old new) ks st))"
proof (induction ks arbitrary: st)
  case Nil
  show ?case by simp
next
  case (Cons k ks)
  have "set (out st) \<subseteq> set (out (missing_host old new k st))" by (rule missing_host_out_mono)
  also have "\<dots> \<subseteq> set (out (fold (missing_host old new) ks (missing_host old new k st)))"
    by (rule Cons.IH)
  finally show ?case by simp
qed

lemma missing_host_lines:
  "Ports new ip = None \<Longrightarrow> port \<in> set (lookup (Ports old) ip) \<Longrightarrow>
   (''  [-] '' @ red @ port @ reset @ ''\<newline>'') \<in> set (out (missing_host old new ip st))"
  by (auto simp: missing_host_def Let_def)

lemma fold_missing_host_lines:
  "ip \<in> set ks \<Longrightarrow> Ports new ip = None \<Longrightarrow> port \<in> set (lookup (Ports old) ip) \<Longrightarrow>
   (''  [-] '' @ red @ port @ reset @ ''\<newline>'') \<in> set (out (fold (missing_host old new) ks st))"
proof (induction ks arbitrary: st)
  case Nil
  then show ?case by simp
next
  case (Cons k ks)
  show ?case
  proof (cases "k = ip")
    case True
    have "(''  [-] '' @ red @ port @ reset @ ''\<newline>'') \<in> set (out (missing_host old new ip st))"
      using Cons.prems(2,3) by (rule missing_host_lines)
    then show ?thesis using True fold_missing_host_out_mono [of "missing_host old new ip st" old new ks]
      by auto
  next
    case False
    then have "ip \<in> set ks" using Cons.prems by simp
    from Cons.IH [OF this Cons.prems(2,3)] show ?thesis by simp
  qed
qed

lemma compare_hosts_fields:
  "noChanges (compare_hosts S old new hdr) =
     ((\<forall>ip \<in> set (new_order S). diff_of S old new ip = ([], [])) \<and>
      (\<forall>ip \<in> set (old_order S). Ports new ip \<noteq> None))"
  "totalAdded (compare_hosts S old new hdr) =
     sum_list (map (\<lambda>h. int (length (fst (diff_of S old new h)))) (new_order S))"
  "totalRemoved (compare_hosts S old new hdr) =
     sum_list (map (\<lambda>h. int (length (snd (diff_of S old new h)))) (new_order S))
       + sum_list (map (\<lambda>h. int (length (lookup (Ports old) h))) (missing_hosts S new))"
  by (simp_all add: compare_hosts_def fold_missing_host fold_track_host missing_hosts_def)

lemma CompareScans_parsed:
  assumes "parse_time E (DateTime old) = Inr t0" and "parse_time E (DateTime new) = Inr t1"
    and "st = compare_hosts S old new [elapsed_line (Sub t1 t0)]"
  shows "CompareScans E S old new fs =
     (if noChanges st then (out st @ [''No changes detected.\<newline>''], fs)
      else (out st @ [summary_line (totalAdded st) (totalRemoved st)], snd (SaveScan E new fs)))"
  using assms by (simp add: CompareScans_def Let_def)

lemma summary_not_no_changes: "summary_line a r \<noteq> ''No changes detected.\<newline>''"
  by (simp add: summary_line_def)

text \<open>
  C9. When the timestamp of the old snapshot does not parse, \<open>CompareScans\<close> prints the
  error and returns: it prints nothing else (no diff is computed) and the file system is
  as it was. The same holds when the old timestamp parses and the new one does not.
\<close>

theorem time_parse_error_aborts:
  "(parse_time E (DateTime old) = Inl err \<longrightarrow>
      CompareScans E S old new fs = ([''Error parsing old scan time: '' @ message err @ ''\<newline>''], fs)) \<and>
   (parse_time E (DateTime old) = Inr t0 \<and> parse_time E (DateTime new) = Inl err \<longrightarrow>
      CompareScans E S old new fs = ([''Error parsing new scan time: '' @ message err @ ''\<newline>''], fs))"
  by (simp add: CompareScans_def)

theorem time_parse_error_aborts_witness:
  "parse_time sample_env (DateTime (old_scan\<lparr>DateTime := ''yesterday''\<rparr>)) = Inl (Error ''cannot parse as RFC 3339'') \<and>
   CompareScans sample_env sample_sched (old_scan\<lparr>DateTime := ''yesterday''\<rparr>) new_scan sample_fs =
     ([''Error parsing old scan time: cannot parse as RFC 3339\<newline>''], sample_fs) \<and>
   parse_time sample_env (DateTime old_scan) = Inr 1714557600000000000 \<and>
   parse_time sample_env (DateTime (new_scan\<lparr>DateTime := ''soon''\<rparr>)) = Inl (Error ''cannot parse as RFC 3339'') \<and>
   CompareScans sample_env sample_sched old_scan (new_scan\<lparr>DateTime := ''soon''\<rparr>) sample_fs =
     ([''Error parsing new scan time: cannot parse as RFC 3339\<newline>''], sample_fs)"
proof -
  have h1: "parse_time sample_env (DateTime (old_scan\<lparr>DateTime := ''yesterday''\<rparr>)) = Inl (Error ''cannot parse as RFC 3339'')"
    by (simp add: sample_env_def)
  have h2: "parse_time sample_env (DateTime old_scan) = Inr 1714557600000000000"
    by (simp add: sample_env_def old_scan_def)
  have h3: "parse_time sample_env (DateTime (new_scan\<lparr>DateTime := ''soon''\<rparr>)) = Inl (Error ''cannot parse as RFC 3339'')"
    by (simp add: sample_env_def)
  show ?thesis
    using h1 h2 h3
      time_parse_error_aborts [of sample_env "old_scan\<lparr>DateTime := ''yesterday''\<rparr>"
        "Error ''cannot parse as RFC 3339''" sample_sched new_scan sample_fs]
      time_parse_error_aborts [of sample_env old_scan
        "Error ''cannot parse as RFC 3339''" sample_sched "new_scan\<lparr>DateTime := ''soon''\<rparr>" sample_fs 1714557600000000000]
    by simp
qed

text \<open>
  The comparison taken alone, when both timestamps parse: \<open>CompareScans\<close> saves the new
  snapshot if and only if a host of the new snapshot has a diff that is not empty or a host of the old
  snapshot is missing from the new one: after a change the file system is the one that
  \<open>SaveScan\<close> of the new snapshot gives, and with no change it is untouched and the last
  line printed is \<open>No changes detected.\<close>
\<close>

lemma compare_persists_iff_changed:
  assumes "parse_time E (DateTime old) = Inr t0" and "parse_time E (DateTime new) = Inr t1"
    and "valid_sched S old new"
    and "changed = ((\<exists>ip \<in> dom (Ports new). diff_of S old new ip \<noteq> ([], [])) \<or>
                    (\<exists>ip \<in> dom (Ports old). ip \<notin> dom (Ports new)))"
  shows "snd (CompareScans E S old new fs) = (if changed then snd (SaveScan E new fs) else fs) \<and>
         (last (fst (CompareScans E S old new fs)) = ''No changes detected.\<newline>'') = (\<not> changed)"
proof -
  define st where "st = compare_hosts S old new [elapsed_line (Sub t1 t0)]"
  have n: "set (new_order S) = dom (Ports new)" and o: "set (old_order S) = dom (Ports old)"
    using assms(3) by (simp_all add: valid_sched_def range_order_def)
  have "noChanges st = (\<not> changed)"
    unfolding st_def compare_hosts_fields n o assms(4) by auto
  then show ?thesis
    using CompareScans_parsed [OF assms(1,2) st_def, of fs] summary_not_no_changes
    by auto
qed

lemma compare_persists_iff_changed_witness:
  "parse_time sample_env (DateTime old_scan) = Inr 1714557600000000000 \<and>
   parse_time sample_env (DateTime new_scan) = Inr 1714563000000000000 \<and>
   valid_sched sample_sched old_scan new_scan \<and>
   diff_of sample_sched old_scan new_scan ''10.0.0.1'' \<noteq> ([], []) \<and>
   snd (CompareScans sample_env sample_sched old_scan new_scan sample_fs) =
     snd (SaveScan sample_env new_scan sample_fs) \<and>
   last (fst (CompareScans sample_env sample_sched old_scan new_scan sample_fs)) \<noteq>
     ''No changes detected.\<newline>'' \<and>
   valid_sched same_sched new_scan new_scan \<and>
   diff_of same_sched new_scan new_scan ''10.0.0.1'' = ([], []) \<and>
   snd (CompareScans sample_env same_sched new_scan new_scan sample_fs) = sample_fs \<and>
   last (fst (CompareScans sample_env same_sched new_scan new_scan sample_fs)) =
     ''No changes detected.\<newline>''"
proof -
  have h1: "parse_time sample_env (DateTime old_scan) = Inr 1714557600000000000"
    by (simp add: sample_env_def old_scan_def)
  have h2: "parse_time sample_env (DateTime new_scan) = Inr 1714563000000000000"
    by (simp add: sample_env_def new_scan_def)
  have h3: "valid_sched sample_sched old_scan new_scan" by (rule sample_valid)
  have dn: "dom (Ports new_scan) = {''10.0.0.1''}" by (simp add: new_scan_def)
  have d: "diff_of sample_sched old_scan new_scan ''10.0.0.1'' \<noteq> ([], [])"
    by (simp add: sample_diff)
  have c: "True = ((\<exists>ip \<in> dom (Ports new_scan). diff_of sample_sched old_scan new_scan ip \<noteq> ([], [])) \<or>
                    (\<exists>ip \<in> dom (Ports old_scan). ip \<notin> dom (Ports new_scan)))"
    using d dn by simp
  have h3': "valid_sched same_sched new_scan new_scan"
    by (auto simp: valid_sched_def range_order_def make_set_def lookup_def same_sched_def new_scan_def)
  have d': "diff_of same_sched new_scan new_scan ''10.0.0.1'' = ([], [])"
    by (simp add: diff_of_def DiffPorts_def make_set_def member_def lookup_def Let_def
        same_sched_def new_scan_def)
  have c': "False = ((\<exists>ip \<in> dom (Ports new_scan). diff_of same_sched new_scan new_scan ip \<noteq> ([], [])) \<or>
                    (\<exists>ip \<in> dom (Ports new_scan). ip \<notin> dom (Ports new_scan)))"
    using d' dn by simp
  have r1: "snd (CompareScans sample_env sample_sched old_scan new_scan sample_fs) =
     snd (SaveScan sample_env new_scan sample_fs) \<and>
   last (fst (CompareScans sample_env sample_sched old_scan new_scan sample_fs)) \<noteq>
     ''No changes detected.\<newline>''"
    using compare_persists_iff_changed [OF h1 h2 h3 c, of sample_fs] by simp
  have r2: "snd (CompareScans sample_env same_sched new_scan new_scan sample_fs) = sample_fs \<and>
   last (fst (CompareScans sample_env same_sched new_scan new_scan sample_fs)) =
     ''No changes detected.\<newline>''"
    using compare_persists_iff_changed [OF h2 h2 h3' c', of sample_fs] by simp
  show ?thesis
    using h1 h2 h3 d h3' d' r1 r2 by blast
qed

text \<open>
  The condition on the timestamps is needed there: the old snapshot below has a
  timestamp that does not parse, the host \<open>10.0.0.1\<close> has a diff that is not empty, and
  \<open>CompareScans\<close> returns after the error line with the stored snapshot untouched, where a
  save would have replaced it.
\<close>

lemma unparsed_time_not_saved_counterexample:
  "valid_sched sample_sched (old_scan\<lparr>DateTime := ''yesterday''\<rparr>) new_scan \<and>
   ''10.0.0.1'' \<in> dom (Ports new_scan) \<and>
   diff_of sample_sched (old_scan\<lparr>DateTime := ''yesterday''\<rparr>) new_scan ''10.0.0.1'' =
     ([''443/tcp [open] (https)''], [''80/tcp [open] (http)'']) \<and>
   CompareScans sample_env sample_sched (old_scan\<lparr>DateTime := ''yesterday''\<rparr>) new_scan sample_fs =
     ([''Error parsing old scan time: cannot parse as RFC 3339\<newline>''], sample_fs) \<and>
   files sample_fs scanFile = Some ''{datetime: 2024-05-01T10:00:00Z}'' \<and>
   files (snd (SaveScan sample_env new_scan sample_fs)) scanFile = Some ''{datetime: 2024-05-01T11:30:00Z}''"
  by (auto simp: valid_sched_def range_order_def make_set_def lookup_def sample_evals
      diff_of_def DiffPorts_def member_def Let_def CompareScans_def
      SaveScan_def EnsureScanFolderExists_def Stat_def Rename_def WriteFile_def dir_exists_def
      parent_def scanFile_def backupScanFile_def scanFolder_def)

text \<open>
  C6, when both timestamps parse. When they do and a host \<open>ip\<close> of the old snapshot is
  missing from the new one, the pair counts as changed (the summary is printed and the new
  snapshot is saved), every old entry of \<open>ip\<close> is printed as removed and adds one to the
  count of removed ports, and \<open>ip\<close> adds nothing to the count of added ports, which is the
  sum over the hosts of the new snapshot.
\<close>

theorem missing_host_counted_removed:
  assumes "parse_time E (DateTime old) = Inr t0" and "parse_time E (DateTime new) = Inr t1"
    and "valid_sched S old new"
    and "Ports old ip = Some es" and "Ports new ip = None"
    and "st = compare_hosts S old new [elapsed_line (Sub t1 t0)]"
  shows "CompareScans E S old new fs =
           (out st @ [summary_line (totalAdded st) (totalRemoved st)], snd (SaveScan E new fs)) \<and>
         noChanges st = False \<and>
         totalAdded st = sum_list (map (\<lambda>h. int (length (fst (diff_of S old new h)))) (new_order S)) \<and>
         totalRemoved st =
           sum_list (map (\<lambda>h. int (length (snd (diff_of S old new h)))) (new_order S))
           + sum_list (map (\<lambda>h. int (length (lookup (Ports old) h))) (remove1 ip (missing_hosts S new)))
           + int (length es) \<and>
         ip \<notin> set (new_order S) \<and>
         (\<forall>port \<in> set es. (''  [-] '' @ red @ port @ reset @ ''\<newline>'') \<in> set (out st))"
proof -
  have n: "set (new_order S) = dom (Ports new)" and o: "set (old_order S) = dom (Ports old)"
    using assms(3) by (simp_all add: valid_sched_def range_order_def)
  have io: "ip \<in> set (old_order S)" using o assms(4) by auto
  then have im: "ip \<in> set (missing_hosts S new)" using assms(5) by (simp add: missing_hosts_def)
  have inn: "ip \<notin> set (new_order S)" using n assms(5) by auto
  have nc: "noChanges st = False"
    using io assms(5) by (auto simp: assms(6) compare_hosts_fields)
  have les: "lookup (Ports old) ip = es" using assms(4) by (simp add: lookup_def)
  have "sum_list (map (\<lambda>h. int (length (lookup (Ports old) h))) (missing_hosts S new)) =
        int (length es) + sum_list (map (\<lambda>h. int (length (lookup (Ports old) h))) (remove1 ip (missing_hosts S new)))"
    using sum_list_map_remove1 [OF im, of "\<lambda>h. int (length (lookup (Ports old) h))"] les by simp
  then have tr: "totalRemoved st =
           sum_list (map (\<lambda>h. int (length (snd (diff_of S old new h)))) (new_order S))
           + sum_list (map (\<lambda>h. int (length (lookup (Ports old) h))) (remove1 ip (missing_hosts S new)))
           + int (length es)"
    by (simp add: assms(6) compare_hosts_fields)
  have ta: "totalAdded st = sum_list (map (\<lambda>h. int (length (fst (diff_of S old new h)))) (new_order S))"
    by (simp add: assms(6) compare_hosts_fields)
  have lines: "\<forall>port \<in> set es. (''  [-] '' @ red @ port @ reset @ ''\<newline>'') \<in> set (out st)"
    using fold_missing_host_lines [OF io assms(5)] les by (simp add: assms(6) compare_hosts_def)
  have "CompareScans E S old new fs =
           (out st @ [summary_line (totalAdded st) (totalRemoved st)], snd (SaveScan E new fs))"
    using CompareScans_parsed [OF assms(1,2,6), of fs] nc by simp
  with nc ta tr inn lines show ?thesis by blast
qed

theorem missing_host_counted_removed_witness:
  "parse_time sample_env (DateTime old_scan) = Inr 1714557600000000000 \<and>
   parse_time sample_env (DateTime new_scan) = Inr 1714563000000000000 \<and>
   valid_sched sample_sched old_scan new_scan \<and>
   Ports old_scan ''10.0.0.2'' = Some [''22/tcp [open] (ssh)'', ''25/tcp [open] (smtp)''] \<and>
   Ports new_scan ''10.0.0.2'' = None \<and>
   noChanges (compare_hosts sample_sched old_scan new_scan
       [elapsed_line (Sub 1714563000000000000 1714557600000000000)]) = False \<and>
   totalAdded (compare_hosts sample_sched old_scan new_scan
       [elapsed_line (Sub 1714563000000000000 1714557600000000000)]) = 1 \<and>
   totalRemoved (compare_hosts sample_sched old_scan new_scan
       [elapsed_line (Sub 1714563000000000000 1714557600000000000)]) = 3 \<and>
   snd (CompareScans sample_env sample_sched old_scan new_scan sample_fs) =
     snd (SaveScan sample_env new_scan sample_fs)"
proof -
  have h1: "parse_time sample_env (DateTime old_scan) = Inr 1714557600000000000"
    by (simp add: sample_env_def old_scan_def)
  have h2: "parse_time sample_env (DateTime new_scan) = Inr 1714563000000000000"
    by (simp add: sample_env_def new_scan_def)
  have h3: "valid_sched sample_sched old_scan new_scan" by (rule sample_valid)
  have h4: "Ports old_scan ''10.0.0.2'' = Some [''22/tcp [open] (ssh)'', ''25/tcp [open] (smtp)'']"
    by (simp add: old_scan_def)
  have h5: "Ports new_scan ''10.0.0.2'' = None" by (simp add: new_scan_def)
  have n: "new_order sample_sched = [''10.0.0.1'']" by (simp add: sample_sched_def)
  have m: "remove1 ''10.0.0.2'' (missing_hosts sample_sched new_scan) = []"
    by (simp add: missing_hosts_def sample_sched_def new_scan_def)
  show ?thesis
    using h1 h2 h3 h4 h5 missing_host_counted_removed [OF h1 h2 h3 h4 h5 refl, of sample_fs]
    by (simp add: n m sample_diff)
qed

text \<open>
  The condition on the timestamps is needed: the host \<open>10.0.0.2\<close> is missing
  from the new snapshot below, whose timestamp does not parse, and \<open>CompareScans\<close> prints
  the error line only: no entry is reported as removed, no summary is printed and nothing is
  saved.
\<close>

theorem missing_host_unparsed_time_counterexample:
  "valid_sched sample_sched old_scan (new_scan\<lparr>DateTime := ''soon''\<rparr>) \<and>
   Ports old_scan ''10.0.0.2'' = Some [''22/tcp [open] (ssh)'', ''25/tcp [open] (smtp)''] \<and>
   Ports (new_scan\<lparr>DateTime := ''soon''\<rparr>) ''10.0.0.2'' = None \<and>
   CompareScans sample_env sample_sched old_scan (new_scan\<lparr>DateTime := ''soon''\<rparr>) sample_fs =
     ([''Error parsing new scan time: cannot parse as RFC 3339\<newline>''], sample_fs)"
  by (auto simp: valid_sched_def range_order_def make_set_def lookup_def sample_evals CompareScans_def)

section \<open>The diff of two entry lists\<close>

lemma fold_set_lookup:
  "fold (\<lambda>p m. m(p \<mapsto> True)) ps m0 q = (if q \<in> set ps then Some True else m0 q)"
  by (induction ps arbitrary: m0) auto

lemma member_make_set: "member (make_set ps) q \<longleftrightarrow> q \<in> set ps"
  by (simp add: member_def make_set_def fold_set_lookup)

lemma dom_make_set: "dom (make_set ps) = set ps"
  by (auto simp: make_set_def fold_set_lookup dom_def)

lemma fold_collect: "fold (\<lambda>p acc. if P p then acc @ [p] else acc) ks acc = acc @ filter P ks"
  by (induction ks arbitrary: acc) auto

text \<open>Every map built from a list has an order for its range.\<close>

lemma range_order_remdups: "range_order (make_set ps) (remdups ps)"
  by (simp add: range_order_def dom_make_set)

text \<open>Whatever the orders of the two ranges, \<open>DiffPorts\<close> filters them.\<close>

lemma DiffPorts_filter:
  "DiffPorts (kn, ko) old new = (filter (\<lambda>p. p \<notin> set old) kn, filter (\<lambda>p. p \<notin> set new) ko)"
  by (simp add: DiffPorts_def Let_def member_make_set fold_collect)

text \<open>
  C4. For every pair of entry lists and every order in which the two ranges visit the keys
  of \<open>newSet\<close> and \<open>oldSet\<close>: the added entries are, as a set, the entries of \<open>new\<close> that are
  not in \<open>old\<close>, the removed entries are the entries of \<open>old\<close> that are not in \<open>new\<close>, no
  entry is returned twice, and an entry of both lists is in neither result.
\<close>

theorem DiffPorts_sets:
  assumes "range_order (make_set new) kn" and "range_order (make_set old) ko"
  shows "set (fst (DiffPorts (kn, ko) old new)) = set new - set old \<and>
         set (snd (DiffPorts (kn, ko) old new)) = set old - set new \<and>
         distinct (fst (DiffPorts (kn, ko) old new)) \<and>
         distinct (snd (DiffPorts (kn, ko) old new)) \<and>
         set (fst (DiffPorts (kn, ko) old new)) \<inter> (set old \<inter> set new) = {} \<and>
         set (snd (DiffPorts (kn, ko) old new)) \<inter> (set old \<inter> set new) = {}"
  using assms by (auto simp: DiffPorts_filter range_order_def dom_make_set)

theorem DiffPorts_sets_witness:
  "range_order (make_set [''22/tcp [open] (ssh)'', ''80/tcp [open] (http)'', ''80/tcp [open] (http)''])
     [''80/tcp [open] (http)'', ''22/tcp [open] (ssh)''] \<and>
   range_order (make_set [''21/tcp [open] (ftp)'', ''22/tcp [open] (ssh)'', ''21/tcp [open] (ftp)''])
     [''22/tcp [open] (ssh)'', ''21/tcp [open] (ftp)''] \<and>
   DiffPorts ([''80/tcp [open] (http)'', ''22/tcp [open] (ssh)''], [''22/tcp [open] (ssh)'', ''21/tcp [open] (ftp)''])
     [''21/tcp [open] (ftp)'', ''22/tcp [open] (ssh)'', ''21/tcp [open] (ftp)'']
     [''22/tcp [open] (ssh)'', ''80/tcp [open] (http)'', ''80/tcp [open] (http)'']
     = ([''80/tcp [open] (http)''], [''21/tcp [open] (ftp)'']) \<and>
   set (fst (DiffPorts ([''80/tcp [open] (http)'', ''22/tcp [open] (ssh)''], [''22/tcp [open] (ssh)'', ''21/tcp [open] (ftp)''])
     [''21/tcp [open] (ftp)'', ''22/tcp [open] (ssh)'', ''21/tcp [open] (ftp)'']
     [''22/tcp [open] (ssh)'', ''80/tcp [open] (http)'', ''80/tcp [open] (http)'']))
     = set [''22/tcp [open] (ssh)'', ''80/tcp [open] (http)'', ''80/tcp [open] (http)'']
       - set [''21/tcp [open] (ftp)'', ''22/tcp [open] (ssh)'', ''21/tcp [open] (ftp)'']"
proof -
  have h1: "range_order (make_set [''22/tcp [open] (ssh)'', ''80/tcp [open] (http)'', ''80/tcp [open] (http)''])
     [''80/tcp [open] (http)'', ''22/tcp [open] (ssh)'']"
    by (auto simp: range_order_def make_set_def)
  have h2: "range_order (make_set [''21/tcp [open] (ftp)'', ''22/tcp [open] (ssh)'', ''21/tcp [open] (ftp)''])
     [''22/tcp [open] (ssh)'', ''21/tcp [open] (ftp)'']"
    by (auto simp: range_order_def make_set_def)
  have e: "DiffPorts ([''80/tcp [open] (http)'', ''22/tcp [open] (ssh)''], [''22/tcp [open] (ssh)'', ''21/tcp [open] (ftp)''])
     [''21/tcp [open] (ftp)'', ''22/tcp [open] (ssh)'', ''21/tcp [open] (ftp)'']
     [''22/tcp [open] (ssh)'', ''80/tcp [open] (http)'', ''80/tcp [open] (http)'']
     = ([''80/tcp [open] (http)''], [''21/tcp [open] (ftp)''])"
    by (simp add: DiffPorts_def make_set_def member_def Let_def)
  from DiffPorts_sets [OF h1 h2] h1 h2 e show ?thesis by blast
qed

section \<open>The snapshot store\<close>

lemma parent_scanFile: "parent scanFile = scanFolder"
  by (simp add: parent_def scanFile_def scanFolder_def)

lemma parent_backupScanFile: "parent backupScanFile = scanFolder"
  by (simp add: parent_def backupScanFile_def scanFolder_def)

lemma slots_differ: "scanFile \<noteq> backupScanFile"
  by (simp add: scanFile_def backupScanFile_def)

text \<open>The first save, into a file system that has nothing yet: the folder is made, the
  current slot is written and there is no backup.\<close>

lemma SaveScan_fresh:
  assumes "dirs fs = {}" and "files fs = Map.empty" and "marshal E scan = Inr a"
  shows "SaveScan E scan fs = (None, fs\<lparr>dirs := {scanFolder}, files := [scanFile \<mapsto> a]\<rparr>) \<and>
         store_ready (snd (SaveScan E scan fs))"
  using assms
  by (simp add: SaveScan_def EnsureScanFolderExists_def Stat_def Mkdir_def WriteFile_def
      dir_exists_def parent_scanFile store_ready_def Let_def)
     (simp add: parent_def scanFolder_def scanFile_def backupScanFile_def)

text \<open>One save into a store whose current slot is filled: the old contents go to the
  backup slot and the new contents to the current slot.\<close>

lemma SaveScan_ready:
  assumes "store_ready fs" and "files fs scanFile = Some a" and "marshal E scan = Inr b"
  shows "SaveScan E scan fs =
           (None, fs\<lparr>files := (files fs)(scanFile := None, backupScanFile \<mapsto> a, scanFile \<mapsto> b)\<rparr>)"
  using assms
  by (simp add: SaveScan_def EnsureScanFolderExists_def Stat_def store_ready_def Rename_def
      WriteFile_def dir_exists_def parent_scanFile parent_backupScanFile Let_def)

text \<open>The rotation comes before the write: a save that stops between the two (here at the
  encoding, the one step in between that can return) leaves the old contents in the backup
  slot and the current slot empty.\<close>

lemma SaveScan_rotates_first:
  assumes "store_ready fs" and "files fs scanFile = Some a" and "marshal E scan = Inl err"
  shows "SaveScan E scan fs =
           (Some err, fs\<lparr>files := (files fs)(scanFile := None, backupScanFile \<mapsto> a)\<rparr>)"
  using assms
  by (simp add: SaveScan_def EnsureScanFolderExists_def Stat_def store_ready_def Rename_def
      dir_exists_def parent_backupScanFile Let_def)

text \<open>
  C5. Let the store be usable (its folder exists and its two slots are not directories), let
  its current slot hold the encoding \<open>a\<close> of a snapshot, and let \<open>b\<close> and \<open>c\<close> be the encodings
  of the snapshots \<open>B\<close> and \<open>C\<close>. After the save of \<open>B\<close> the backup slot holds \<open>a\<close> and the
  current slot holds \<open>b\<close>. After the save of \<open>C\<close> that follows, the backup slot holds \<open>b\<close> and
  the current slot holds \<open>c\<close>; no other file has changed, so \<open>a\<close> is in neither slot unless it
  equals \<open>b\<close> or \<open>c\<close>.
\<close>

theorem save_rotation:
  assumes "store_ready fs" and "files fs scanFile = Some a"
    and "marshal E B = Inr b" and "marshal E C = Inr c"
    and "fs1 = snd (SaveScan E B fs)" and "fs2 = snd (SaveScan E C fs1)"
  shows "fst (SaveScan E B fs) = None \<and>
         files fs1 backupScanFile = Some a \<and> files fs1 scanFile = Some b \<and>
         fst (SaveScan E C fs1) = None \<and>
         files fs2 backupScanFile = Some b \<and> files fs2 scanFile = Some c \<and>
         files fs2 = (files fs)(backupScanFile \<mapsto> b, scanFile \<mapsto> c) \<and>
         dirs fs2 = dirs fs \<and>
         (a \<noteq> b \<and> a \<noteq> c \<longrightarrow> files fs2 backupScanFile \<noteq> Some a \<and> files fs2 scanFile \<noteq> Some a)"
proof -
  have s1: "SaveScan E B fs =
      (None, fs\<lparr>files := (files fs)(scanFile := None, backupScanFile \<mapsto> a, scanFile \<mapsto> b)\<rparr>)"
    using assms(1-3) by (rule SaveScan_ready)
  then have f1: "fs1 = fs\<lparr>files := (files fs)(scanFile := None, backupScanFile \<mapsto> a, scanFile \<mapsto> b)\<rparr>"
    using assms(5) by simp
  have r1: "store_ready fs1" using assms(1) f1 by (simp add: store_ready_def)
  have c1: "files fs1 scanFile = Some b" using f1 by simp
  have s2: "SaveScan E C fs1 =
      (None, fs1\<lparr>files := (files fs1)(scanFile := None, backupScanFile \<mapsto> b, scanFile \<mapsto> c)\<rparr>)"
    using r1 c1 assms(4) by (rule SaveScan_ready)
  then have f2: "fs2 = fs1\<lparr>files := (files fs1)(scanFile := None, backupScanFile \<mapsto> b, scanFile \<mapsto> c)\<rparr>"
    using assms(6) by simp
  have "files fs2 = (files fs)(backupScanFile \<mapsto> b, scanFile \<mapsto> c)"
    using f1 f2 slots_differ by (auto simp: fun_eq_iff)
  then show ?thesis using s1 s2 f1 f2 slots_differ by auto
qed

theorem save_rotation_witness:
  "store_ready sample_fs \<and>
   files sample_fs scanFile = Some ''{datetime: 2024-05-01T10:00:00Z}'' \<and>
   marshal sample_env new_scan = Inr ''{datetime: 2024-05-01T11:30:00Z}'' \<and>
   marshal sample_env (new_scan\<lparr>DateTime := ''2024-05-02T09:00:00Z''\<rparr>) = Inr ''{datetime: 2024-05-02T09:00:00Z}'' \<and>
   files (snd (SaveScan sample_env new_scan sample_fs)) backupScanFile = Some ''{datetime: 2024-05-01T10:00:00Z}'' \<and>
   files (snd (SaveScan sample_env new_scan sample_fs)) scanFile = Some ''{datetime: 2024-05-01T11:30:00Z}'' \<and>
   files (snd (SaveScan sample_env (new_scan\<lparr>DateTime := ''2024-05-02T09:00:00Z''\<rparr>)
            (snd (SaveScan sample_env new_scan sample_fs)))) backupScanFile = Some ''{datetime: 2024-05-01T11:30:00Z}'' \<and>
   files (snd (SaveScan sample_env (new_scan\<lparr>DateTime := ''2024-05-02T09:00:00Z''\<rparr>)
            (snd (SaveScan sample_env new_scan sample_fs)))) scanFile = Some ''{datetime: 2024-05-02T09:00:00Z}''"
proof -
  have h1: "store_ready sample_fs"
    by (simp add: store_ready_def sample_fs_def scanFile_def backupScanFile_def scanFolder_def)
  have h2: "files sample_fs scanFile = Some ''{datetime: 2024-05-01T10:00:00Z}''"
    by (simp add: sample_fs_def)
  have h3: "marshal sample_env new_scan = Inr ''{datetime: 2024-05-01T11:30:00Z}''"
    by (simp add: sample_env_def new_scan_def)
  have h4: "marshal sample_env (new_scan\<lparr>DateTime := ''2024-05-02T09:00:00Z''\<rparr>) = Inr ''{datetime: 2024-05-02T09:00:00Z}''"
    by (simp add: sample_env_def)
  from save_rotation [OF h1 h2 h3 h4 refl refl] h1 h2 h3 h4 show ?thesis by blast
qed

section \<open>The command that is run\<close>

lemma fields_nonempty_trim: "Fields s \<noteq> [] \<Longrightarrow> s \<noteq> []"
  by (auto simp: Fields_def)

text \<open>With \<open>sudo\<close> first and a second token \<open>x\<close>, the command that is run is \<open>x\<close>, and its
  argument vector is \<open>x\<close>, then the tokens from the second on, then the target.\<close>

lemma sudo_command_general:
  assumes "Fields (TrimSpace command) = ''sudo'' # x # rest" and "TrimSpace target \<noteq> []"
  shows "scan_command command target =
           Inr \<lparr>Path = x, Args = x # x # rest @ [TrimSpace target]\<rparr>"
proof -
  have "Fields (TrimSpace command) \<noteq> []" using assms(1) by simp
  then have "TrimSpace command \<noteq> []" by (rule fields_nonempty_trim)
  then show ?thesis using assms by (simp add: scan_command_def Let_def exec_Command_def)
qed

text \<open>
  C2. On the command \<open>sudo nmap -p-\<close> and the target \<open>10.0.0.1\<close> the program does not run
  the four tokens \<open>sudo nmap -p- 10.0.0.1\<close>: it runs \<open>nmap\<close> with the argument vector
  \<open>nmap nmap -p- 10.0.0.1\<close>. The prefix is dropped and the second token stands twice, the
  second time as an argument of the scanner.
\<close>

theorem sudo_command_executed:
  "scan_command ''sudo nmap -p-'' ''10.0.0.1'' =
     Inr \<lparr>Path = ''nmap'', Args = [''nmap'', ''nmap'', ''-p-'', ''10.0.0.1'']\<rparr>"
  by code_simp

section \<open>The elapsed time\<close>

subsection \<open>Rounding to float64\<close>

lemma pow2_ilog2_le:
  assumes "0 < x"
  shows "power_int 2 (ilog2 x) \<le> x"
proof (cases "x \<ge> 1")
  case True
  then have fl: "\<lfloor>x\<rfloor> > 0" by linarith
  from bitlen_bounds [OF fl] have "2 ^ nat (bitlen \<lfloor>x\<rfloor> - 1) \<le> \<lfloor>x\<rfloor>" by simp
  then have "(of_int (2 ^ nat (bitlen \<lfloor>x\<rfloor> - 1)) :: rat) \<le> of_int \<lfloor>x\<rfloor>"
    by (simp only: of_int_le_iff)
  also have "\<dots> \<le> x" by simp
  finally have "(2 :: rat) ^ nat (bitlen \<lfloor>x\<rfloor> - 1) \<le> x" by simp
  moreover have "bitlen \<lfloor>x\<rfloor> - 1 \<ge> 0" using fl by (auto simp: bitlen_alt_def)
  ultimately show ?thesis using True by (simp add: ilog2_def power_int_def)
next
  case False
  then have x1: "x < 1" by simp
  define c where "c = \<lceil>1 / x\<rceil>"
  have "1 / x > 1" using assms x1 by simp
  then have c2: "c - 1 > 0" unfolding c_def by linarith
  define k where "k = bitlen (c - 1)"
  have k0: "k \<ge> 0" unfolding k_def by (rule bitlen_nonneg)
  from bitlen_bounds [OF c2] have "c - 1 < 2 ^ nat k" by (simp add: k_def)
  then have "c \<le> 2 ^ nat k" by simp
  then have "(of_int c :: rat) \<le> of_int (2 ^ nat k)" by (simp only: of_int_le_iff)
  then have "(of_int c :: rat) \<le> 2 ^ nat k" by simp
  moreover have "1 / x \<le> of_int c" unfolding c_def by simp
  ultimately have "1 / x \<le> 2 ^ nat k" by (rule order_trans [rotated])
  then have "1 \<le> 2 ^ nat k * x" using assms by (simp add: field_simps)
  then have "inverse (2 ^ nat k) \<le> x" by (simp add: field_simps)
  moreover have "ilog2 x = - k" using x1 by (simp add: ilog2_def k_def c_def)
  moreover have "power_int (2 :: rat) (- k) = inverse (2 ^ nat k)"
  proof -
    have "power_int (2 :: rat) k = 2 ^ nat k"
      using k0 power_int_of_nat [of "2 :: rat" "nat k"] by simp
    then show ?thesis by (simp add: power_int_minus)
  qed
  ultimately show ?thesis by simp
qed

lemma ilog2_less:
  assumes "0 < x" and "x < power_int 2 k"
  shows "ilog2 x < k"
proof (rule ccontr)
  assume "\<not> ilog2 x < k"
  then have "k \<le> ilog2 x" by simp
  then have "power_int (2 :: rat) k \<le> power_int 2 (ilog2 x)" by (rule power_int_increasing) simp
  with pow2_ilog2_le [OF assms(1)] assms(2) show False by simp
qed

lemma round_even_err: "\<bar>of_int (round_even m) - m\<bar> \<le> 1 / 2"
proof -
  have "of_int \<lfloor>m\<rfloor> \<le> m" "m < of_int \<lfloor>m\<rfloor> + 1" by linarith+
  then show ?thesis by (auto simp: round_even_def Let_def)
qed

lemma round_even_of_int: "round_even (of_int j) = j"
  by (simp add: round_even_def)

lemma round64_err:
  assumes "0 < x" and "x < power_int 2 k"
  shows "\<bar>round64 x - x\<bar> \<le> power_int 2 (k - 54)"
proof -
  define u :: rat where "u = power_int 2 (ilog2 x - 52)"
  have u0: "u > 0" by (simp add: u_def)
  have "ilog2 x - 52 \<le> k - 53" using ilog2_less [OF assms] by simp
  then have "u \<le> power_int 2 (k - 53)" unfolding u_def by (rule power_int_increasing) simp
  also have "\<dots> = 2 * power_int 2 (k - 54)"
    using power_int_add [of "2 :: rat" 1 "k - 54"] by simp
  finally have uh: "u / 2 \<le> power_int 2 (k - 54)" by simp
  have r: "round64 x = of_int (round_even (x / u)) * u"
    using assms(1) by (simp add: round64_def u_def Let_def)
  have "round64 x - x = (of_int (round_even (x / u)) - x / u) * u"
    using u0 by (simp add: r field_simps)
  then have "\<bar>round64 x - x\<bar> = \<bar>of_int (round_even (x / u)) - x / u\<bar> * u"
    using u0 by (simp add: abs_mult)
  also have "\<dots> \<le> (1 / 2) * u"
    using round_even_err [of "x / u"] u0 by (intro mult_right_mono) auto
  finally show ?thesis using uh by simp
qed

lemma round64_of_int:
  assumes "0 \<le> j" and "j < 2 ^ 53"
  shows "round64 (of_int j) = of_int j"
proof (cases "j = 0")
  case True
  then show ?thesis by (simp add: round64_def)
next
  case False
  then have j0: "(0 :: rat) < of_int j" using assms(1) by simp
  have "(of_int j :: rat) < of_int (2 ^ 53)" using assms(2) by (simp only: of_int_less_iff)
  then have "(of_int j :: rat) < power_int 2 53" by simp
  from ilog2_less [OF j0 this] have e: "52 - ilog2 (of_int j) \<ge> 0" by simp
  define n where "n = nat (52 - ilog2 (of_int j :: rat))"
  have u: "power_int (2 :: rat) (ilog2 (of_int j) - 52) = inverse (2 ^ n)"
  proof -
    have "ilog2 (of_int j :: rat) - 52 = - int n" using e by (simp add: n_def)
    then show ?thesis by (simp add: power_int_minus)
  qed
  have "(of_int j :: rat) / inverse (2 ^ n) = of_int (j * 2 ^ n)" by (simp add: field_simps)
  then have "round_even ((of_int j :: rat) / inverse (2 ^ n)) = j * 2 ^ n"
    by (simp only: round_even_of_int)
  then show ?thesis using j0 by (simp add: round64_def Let_def u)
qed

lemma trunc_of_int: "trunc (of_int j) = j"
  by (simp add: trunc_def)

text \<open>The whole part and the fraction, added in \<open>float64\<close>: when the fraction lies between
  \<open>1/3600\<close> and \<open>3599/3600\<close> (or is zero), the sum truncates to the whole part.\<close>

lemma float_sum_trunc:
  assumes "0 \<le> q" and "q < 2 ^ 30" and "0 \<le> r" and "r < 2 ^ 53" and "0 < U"
    and "r = 0 \<or> (U \<le> 3600 * r \<and> 3600 * r \<le> 3599 * U)"
  shows "trunc (round64 (round64 (of_int q) + round64 (round64 (of_int r) / of_int U))) = q"
proof -
  have q53: "q < 2 ^ 53" using assms(2) by simp
  have rq: "round64 (of_int q) = of_int q" using assms(1) q53 by (rule round64_of_int)
  have rr: "round64 (of_int r) = of_int r" using assms(3,4) by (rule round64_of_int)
  show ?thesis
  proof (cases "r = 0")
    case True
    then show ?thesis using rq by (simp add: round64_def trunc_of_int)
  next
    case False
    define f :: rat where "f = of_int r / of_int U"
    have U0: "(0 :: rat) < of_int U" using assms(5) by simp
    have b: "U \<le> 3600 * r" "3600 * r \<le> 3599 * U" using assms(6) False by auto
    have "(of_int U :: rat) \<le> of_int (3600 * r)" using b(1) by (simp only: of_int_le_iff)
    then have f_lo: "1 / 3600 \<le> f" using U0 by (simp add: f_def field_simps)
    have "(of_int (3600 * r) :: rat) \<le> of_int (3599 * U)" using b(2) by (simp only: of_int_le_iff)
    then have f_hi: "f \<le> 3599 / 3600" using U0 by (simp add: f_def field_simps)
    have f0: "0 < f" using f_lo by simp
    have f1: "f < power_int 2 0" using f_hi by simp
    define f' where "f' = round64 f"
    have "\<bar>f' - f\<bar> \<le> power_int 2 (-54)" unfolding f'_def using round64_err [OF f0 f1] by simp
    then have ferr: "\<bar>f' - f\<bar> \<le> 1 / 18014398509481984" by (simp add: power_int_minus)
    have fb: "f - 1 / 18014398509481984 \<le> f'" "f' \<le> f + 1 / 18014398509481984"
      using ferr by linarith+
    define y where "y = of_int q + f'"
    have q0: "(0 :: rat) \<le> of_int q" using assms(1) by simp
    have y0: "0 < y" using fb f_lo q0 unfolding y_def by linarith
    have "(of_int q :: rat) < of_int (2 ^ 30)" using assms(2) by (simp only: of_int_less_iff)
    then have q30: "(of_int q :: rat) < 1073741824" by simp
    have "y < 2147483648" using fb f_hi q30 unfolding y_def by linarith
    then have y1: "y < power_int 2 31" by simp
    have "\<bar>round64 y - y\<bar> \<le> power_int 2 (-23)" using round64_err [OF y0 y1] by simp
    then have yerr: "\<bar>round64 y - y\<bar> \<le> 1 / 8388608" by (simp add: power_int_minus)
    have yb: "y - 1 / 8388608 \<le> round64 y" "round64 y \<le> y + 1 / 8388608"
      using yerr by linarith+
    have lo: "of_int q \<le> round64 y"
      using yb fb f_lo unfolding y_def by linarith
    have hi: "round64 y < of_int q + 1"
      using yb fb f_hi unfolding y_def by linarith
    have "round64 y \<ge> 0" using lo q0 by linarith
    then have "trunc (round64 y) = \<lfloor>round64 y\<rfloor>" by (simp add: trunc_def)
    also have "\<dots> = q" using lo hi by linarith
    finally show ?thesis by (simp add: y_def f'_def f_def rq rr)
  qed
qed


lemma sdiv_nonneg: "0 \<le> a \<Longrightarrow> 0 < b \<Longrightarrow> (a :: int) sdiv b = a div b"
  by (auto simp: signed_divide_int_def sgn_if)

lemma smod_nonneg: "0 \<le> a \<Longrightarrow> 0 < b \<Longrightarrow> (a :: int) smod b = a mod b"
  by (auto simp: signed_modulo_int_def sgn_if)

text \<open>On a whole number \<open>s\<close> of seconds, not negative and within the range of a
  \<open>Duration\<close>, the two conversions through \<open>float64\<close> are exact.\<close>

lemma Hours_whole_seconds:
  assumes "0 \<le> s" and "sint d = 1000000000 * s"
  shows "trunc (Hours d) = s div 3600"
proof -
  have lt: "sint d < 2 ^ 63" using sint_lt [of d] by simp
  have s_hi: "s < 9223372037" using lt assms(2) by simp
  have dv: "sint d div 3600000000000 = s div 3600"
    using div_mult_mult1 [of "1000000000 :: int" s 3600] by (simp add: assms(2))
  have md: "sint d mod 3600000000000 = 1000000000 * (s mod 3600)"
    using mod_mult_mult1 [of "1000000000 :: int" s 3600] by (simp add: assms(2))
  have d0: "0 \<le> sint d" using assms by simp
  have q0: "0 \<le> s div 3600" using assms(1) by simp
  have q1: "s div 3600 < 2 ^ 30" using s_hi by simp
  have r0: "0 \<le> 1000000000 * (s mod 3600)" by simp
  have r1: "1000000000 * (s mod 3600) < 2 ^ 53"
  proof -
    have "s mod 3600 < 3600" by simp
    then show ?thesis by simp
  qed
  have fr: "1000000000 * (s mod 3600) = 0 \<or>
      (3600000000000 \<le> 3600 * (1000000000 * (s mod 3600)) \<and>
       3600 * (1000000000 * (s mod 3600)) \<le> 3599 * 3600000000000)"
  proof -
    have "0 \<le> s mod 3600" "s mod 3600 < 3600" by simp_all
    then show ?thesis by auto
  qed
  have "trunc (round64 (round64 (of_int (s div 3600))
          + round64 (round64 (of_int (1000000000 * (s mod 3600))) / of_int 3600000000000))) = s div 3600"
    using q0 q1 r0 r1 _ fr by (rule float_sum_trunc) simp
  then show ?thesis
    using d0 by (simp add: Hours_def Let_def sdiv_nonneg smod_nonneg dv md Hour_def Minute_def)
qed

lemma Minutes_whole_seconds:
  assumes "0 \<le> s" and "sint d = 1000000000 * s"
  shows "trunc (Minutes d) = s div 60"
proof -
  have lt: "sint d < 2 ^ 63" using sint_lt [of d] by simp
  have s_hi: "s < 9223372037" using lt assms(2) by simp
  have dv: "sint d div 60000000000 = s div 60"
    using div_mult_mult1 [of "1000000000 :: int" s 60] by (simp add: assms(2))
  have md: "sint d mod 60000000000 = 1000000000 * (s mod 60)"
    using mod_mult_mult1 [of "1000000000 :: int" s 60] by (simp add: assms(2))
  have d0: "0 \<le> sint d" using assms by simp
  have q0: "0 \<le> s div 60" using assms(1) by simp
  have q1: "s div 60 < 2 ^ 30" using s_hi by simp
  have r0: "0 \<le> 1000000000 * (s mod 60)" by simp
  have r1: "1000000000 * (s mod 60) < 2 ^ 53"
  proof -
    have "s mod 60 < 60" by simp
    then show ?thesis by simp
  qed
  have fr: "1000000000 * (s mod 60) = 0 \<or>
      (60000000000 \<le> 3600 * (1000000000 * (s mod 60)) \<and>
       3600 * (1000000000 * (s mod 60)) \<le> 3599 * 60000000000)"
  proof -
    have "0 \<le> s mod 60" "s mod 60 < 60" by simp_all
    then show ?thesis by auto
  qed
  have "trunc (round64 (round64 (of_int (s div 60))
          + round64 (round64 (of_int (1000000000 * (s mod 60))) / of_int 60000000000))) = s div 60"
    using q0 q1 r0 r1 _ fr by (rule float_sum_trunc) simp
  then show ?thesis
    using d0 by (simp add: Minutes_def Let_def sdiv_nonneg smod_nonneg dv md Minute_def)
qed

text \<open>For every duration that is a whole number of seconds and not negative, the program
  prints what the specification says.\<close>

lemma formatElapsedTime_whole_seconds:
  assumes "0 \<le> sint d" and "sint d mod 1000000000 = 0"
  shows "formatElapsedTime d = spec_formatElapsedTime (sint d)"
proof -
  define s where "s = sint d div 1000000000"
  have n: "sint d = 1000000000 * s" using assms(2) by (auto simp: s_def)
  have s0: "0 \<le> s" using assms(1) by (simp add: s_def)
  have h: "trunc (Hours d) = s div 3600" using s0 n by (rule Hours_whole_seconds)
  have m: "trunc (Minutes d) = s div 60" using s0 n by (rule Minutes_whole_seconds)
  have a1: "(1000000000 * s) div (24 * Hour) = s div 86400"
    using div_mult_mult1 [of "1000000000 :: int" s 86400] by (simp add: Hour_def Minute_def)
  have a2: "(1000000000 * s) mod (24 * Hour) = 1000000000 * (s mod 86400)"
    using mod_mult_mult1 [of "1000000000 :: int" s 86400] by (simp add: Hour_def Minute_def)
  have a3: "(1000000000 * (s mod 86400)) div Hour = (s mod 86400) div 3600"
    using div_mult_mult1 [of "1000000000 :: int" "s mod 86400" 3600] by (simp add: Hour_def Minute_def)
  have a4: "(1000000000 * s) div Hour = s div 3600"
    using div_mult_mult1 [of "1000000000 :: int" s 3600] by (simp add: Hour_def Minute_def)
  have a5: "(1000000000 * s) mod Hour = 1000000000 * (s mod 3600)"
    using mod_mult_mult1 [of "1000000000 :: int" s 3600] by (simp add: Hour_def Minute_def)
  have a6: "(1000000000 * (s mod 3600)) div Minute = (s mod 3600) div 60"
    using div_mult_mult1 [of "1000000000 :: int" "s mod 3600" 60] by (simp add: Minute_def)
  have a7: "(1000000000 * s) div Minute = s div 60"
    using div_mult_mult1 [of "1000000000 :: int" s 60] by (simp add: Minute_def)
  have c1: "(1000000000 * s \<ge> 24 * Hour) = (s \<ge> 86400)" by (simp add: Hour_def Minute_def)
  have c2: "(1000000000 * s \<ge> Hour) = (s \<ge> 3600)" by (simp add: Hour_def Minute_def)
  have b1: "s div 3600 sdiv 24 = s div 86400" using s0 by (simp add: sdiv_nonneg zdiv_zmult2_eq)
  have "s mod 86400 = 3600 * (s div 3600 mod 24) + s mod 3600"
    using zmod_zmult2_eq [of 24 s 3600] by simp
  moreover have "(3600 * (s div 3600 mod 24) + s mod 3600) div 3600 = s div 3600 mod 24"
    by simp
  ultimately have "s div 3600 mod 24 = (s mod 86400) div 3600" by simp
  then have b2: "s div 3600 smod 24 = (s mod 86400) div 3600" using s0 by (simp add: smod_nonneg)
  have "s mod 3600 = 60 * (s div 60 mod 60) + s mod 60"
    using zmod_zmult2_eq [of 60 s 60] by simp
  moreover have "(60 * (s div 60 mod 60) + s mod 60) div 60 = s div 60 mod 60"
    by simp
  ultimately have "s div 60 mod 60 = (s mod 3600) div 60" by simp
  then have b3: "s div 60 smod 60 = (s mod 3600) div 60" using s0 by (simp add: smod_nonneg)
  have d1: "(0 < s div 86400) = (s \<ge> 86400)" using s0 by (simp add: pos_imp_zdiv_pos_iff)
  have d2: "(0 < s div 3600) = (s \<ge> 3600)" using s0 by (simp add: pos_imp_zdiv_pos_iff)
  have code: "formatElapsedTime d =
     (if s \<ge> 86400 then fmt_d (s div 86400) @ '' days, '' @ fmt_d ((s mod 86400) div 3600) @ '' hours''
      else if s \<ge> 3600 then fmt_d (s div 3600) @ '' hours, '' @ fmt_d ((s mod 3600) div 60) @ '' minutes''
      else fmt_d ((s mod 3600) div 60) @ '' minutes'')"
    by (simp only: formatElapsedTime_def Let_def h m b1 b2 b3 d1 d2)
  have spec: "spec_formatElapsedTime (sint d) =
     (if s \<ge> 86400 then fmt_d (s div 86400) @ '' days, '' @ fmt_d ((s mod 86400) div 3600) @ '' hours''
      else if s \<ge> 3600 then fmt_d (s div 3600) @ '' hours, '' @ fmt_d ((s mod 3600) div 60) @ '' minutes''
      else fmt_d (s div 60) @ '' minutes'')"
    by (simp only: spec_formatElapsedTime_def n a1 a2 a3 a4 a5 a6 a7 c1 c2)
  have "s < 3600 \<Longrightarrow> (s mod 3600) div 60 = s div 60" using s0 by simp
  then show ?thesis unfolding code spec by auto
qed

subsection \<open>Single durations\<close>

text \<open>The three examples of the specification.\<close>

lemma elapsed_examples:
  "formatElapsedTime 5400000000000 = ''1 hours, 30 minutes''"
  "formatElapsedTime 90000000000000 = ''1 days, 1 hours''"
  "formatElapsedTime 2700000000000 = ''45 minutes''"
  by code_simp+

text \<open>A negative duration of an hour or more: the program prints the minutes that remain
  after the whole hours, with their sign, and no hours.\<close>

lemma elapsed_negative_examples:
  "formatElapsedTime (- 5400000000000) = ''-30 minutes''"
  "formatElapsedTime (- 90000000000000) = ''0 minutes''"
  by code_simp+

text \<open>
  C3. One nanosecond short of 4097 hours the duration holds 4096 whole hours, and \<open>Hours\<close>
  rounds \<open>4096 + 3599999999999 / 3600000000000\<close> to \<open>4097\<close> in \<open>float64\<close>: the program
  prints 17 hours after the 170 days, where the whole hours that remain are 16.
\<close>

theorem elapsed_rounds_up:
  "sint (14749199999999999 :: Duration) sdiv Hour = 4096 \<and>
   Hours 14749199999999999 = 4097 \<and>
   formatElapsedTime 14749199999999999 = ''170 days, 17 hours'' \<and>
   spec_formatElapsedTime (sint (14749199999999999 :: Duration)) = ''170 days, 16 hours''"
  by code_simp

section \<open>The whole run\<close>

lemma noChanges_compare_hosts:
  assumes "valid_sched S old new"
  shows "noChanges (compare_hosts S old new hdr) =
           (\<not> ((\<exists>ip \<in> dom (Ports new). diff_of S old new ip \<noteq> ([], [])) \<or>
               (\<exists>ip \<in> dom (Ports old). ip \<notin> dom (Ports new))))"
proof -
  have n: "set (new_order S) = dom (Ports new)" and o: "set (old_order S) = dom (Ports old)"
    using assms by (simp_all add: valid_sched_def range_order_def)
  show ?thesis unfolding compare_hosts_fields n o by auto
qed

text \<open>After a comparison \<open>main\<close> saves the scan, whatever the comparison found.\<close>

lemma run_main_saves_again:
  assumes "RunScan E scanCmd target = Inr scan" and "LoadPreviousScan E fs = Inr prev"
  shows "snd (run_main E S scanCmd target fs) =
           snd (SaveScan E scan (snd (CompareScans E S prev scan fs)))"
  using assms by (simp add: run_main_def Let_def split: prod.splits)

text \<open>With no change the scan is saved all the same, and the stored snapshot goes to the
  backup slot.\<close>

lemma run_main_unchanged_store:
  assumes "RunScan E scanCmd target = Inr scan" and "LoadPreviousScan E fs = Inr prev"
    and "parse_time E (DateTime prev) = Inr t0" and "parse_time E (DateTime scan) = Inr t1"
    and "valid_sched S prev scan"
    and "\<forall>ip \<in> dom (Ports scan). diff_of S prev scan ip = ([], [])"
    and "dom (Ports prev) \<subseteq> dom (Ports scan)"
    and "store_ready fs" and "files fs scanFile = Some a" and "marshal E scan = Inr b"
  shows "files (snd (run_main E S scanCmd target fs)) scanFile = Some b \<and>
         files (snd (run_main E S scanCmd target fs)) backupScanFile = Some a"
proof -
  have "noChanges (compare_hosts S prev scan [elapsed_line (Sub t1 t0)])"
    using assms(6,7) by (auto simp: noChanges_compare_hosts [OF assms(5)])
  then have "snd (CompareScans E S prev scan fs) = fs"
    using CompareScans_parsed [OF assms(3,4) refl, of S fs] by simp
  then have "snd (run_main E S scanCmd target fs) = snd (SaveScan E scan fs)"
    using run_main_saves_again [OF assms(1,2), of S] by simp
  then show ?thesis using SaveScan_ready [OF assms(8,9,10)] slots_differ by simp
qed

text \<open>After a change the scan is saved twice, by \<open>CompareScans\<close> and by \<open>main\<close>: both slots
  hold the new snapshot and the stored one is gone.\<close>

lemma run_main_changed_store:
  assumes "RunScan E scanCmd target = Inr scan" and "LoadPreviousScan E fs = Inr prev"
    and "parse_time E (DateTime prev) = Inr t0" and "parse_time E (DateTime scan) = Inr t1"
    and "valid_sched S prev scan"
    and "ip \<in> dom (Ports scan)" and "diff_of S prev scan ip \<noteq> ([], [])"
    and "store_ready fs" and "files fs scanFile = Some a" and "marshal E scan = Inr b"
  shows "files (snd (run_main E S scanCmd target fs)) scanFile = Some b \<and>
         files (snd (run_main E S scanCmd target fs)) backupScanFile = Some b"
proof -
  have nc: "\<not> noChanges (compare_hosts S prev scan [elapsed_line (Sub t1 t0)])"
    using assms(6,7) by (auto simp: noChanges_compare_hosts [OF assms(5)])
  define fs1 where "fs1 = snd (SaveScan E scan fs)"
  have f1: "fs1 = fs\<lparr>files := (files fs)(scanFile := None, backupScanFile \<mapsto> a, scanFile \<mapsto> b)\<rparr>"
    using SaveScan_ready [OF assms(8,9,10)] by (simp add: fs1_def)
  have r1: "store_ready fs1" using assms(8) f1 by (simp add: store_ready_def)
  have c1: "files fs1 scanFile = Some b" using f1 by simp
  have "snd (CompareScans E S prev scan fs) = fs1"
    using CompareScans_parsed [OF assms(3,4) refl, of S fs] nc by (simp add: fs1_def)
  then have "snd (run_main E S scanCmd target fs) = snd (SaveScan E scan fs1)"
    using run_main_saves_again [OF assms(1,2), of S] by simp
  then show ?thesis using SaveScan_ready [OF r1 c1 assms(10)] slots_differ by simp
qed

text \<open>One such run, step by step.\<close>

lemma rescan_RunScan:
  "RunScan rescan_env ''nmap -p-'' ''10.0.0.1'' =
     Inr \<lparr>DateTime = ''2024-05-01T11:30:00Z'', Ports = [''10.0.0.1'' \<mapsto> [''80/tcp [open] (http)'']]\<rparr>"
  by (simp add: RunScan_def scan_command_def exec_Command_def rescan_env_def sample_env_def parser_evals)

lemma rescan_Load:
  "LoadPreviousScan rescan_env sample_fs =
     Inr \<lparr>DateTime = ''2024-05-01T10:00:00Z'', Ports = [''10.0.0.1'' \<mapsto> [''80/tcp [open] (http)'']]\<rparr>"
  by (simp add: LoadPreviousScan_def ReadFile_def rescan_env_def sample_env_def sample_fs_def)

lemma rescan_elapsed:
  "elapsed_line (Sub 1714563000000000000 1714557600000000000) =
     ''\<newline>--- Checking Previous Scan Data (Last scan was 1 hours, 30 minutes ago) ---\<newline>\<newline>''"
proof -
  have "Sub 1714563000000000000 1714557600000000000 = 5400000000000" by (simp add: Sub_def)
  then show ?thesis by (simp add: elapsed_line_def elapsed_examples(1))
qed

lemma rescan_compare_hosts:
  "compare_hosts rescan_sched
     \<lparr>DateTime = ''2024-05-01T10:00:00Z'', Ports = [''10.0.0.1'' \<mapsto> [''80/tcp [open] (http)'']]\<rparr>
     \<lparr>DateTime = ''2024-05-01T11:30:00Z'', Ports = [''10.0.0.1'' \<mapsto> [''80/tcp [open] (http)'']]\<rparr> hdr =
   \<lparr>noChanges = True, totalAdded = 0, totalRemoved = 0, out = hdr\<rparr>"
  by (simp add: compare_hosts_def track_host_def missing_host_def DiffPorts_def make_set_def
      member_def lookup_def Let_def rescan_sched_def)

lemma rescan_CompareScans:
  "CompareScans rescan_env rescan_sched
     \<lparr>DateTime = ''2024-05-01T10:00:00Z'', Ports = [''10.0.0.1'' \<mapsto> [''80/tcp [open] (http)'']]\<rparr>
     \<lparr>DateTime = ''2024-05-01T11:30:00Z'', Ports = [''10.0.0.1'' \<mapsto> [''80/tcp [open] (http)'']]\<rparr> sample_fs =
   ([''\<newline>--- Checking Previous Scan Data (Last scan was 1 hours, 30 minutes ago) ---\<newline>\<newline>'',
     ''No changes detected.\<newline>''], sample_fs)"
proof -
  have h1: "parse_time rescan_env (DateTime \<lparr>DateTime = ''2024-05-01T10:00:00Z'', Ports = [''10.0.0.1'' \<mapsto> [''80/tcp [open] (http)'']]\<rparr>) = Inr 1714557600000000000"
    by (simp add: rescan_env_def sample_env_def)
  have h2: "parse_time rescan_env (DateTime \<lparr>DateTime = ''2024-05-01T11:30:00Z'', Ports = [''10.0.0.1'' \<mapsto> [''80/tcp [open] (http)'']]\<rparr>) = Inr 1714563000000000000"
    by (simp add: rescan_env_def sample_env_def)
  show ?thesis
    using CompareScans_parsed [OF h1 h2 refl, of rescan_sched sample_fs]
    by (simp only: rescan_compare_hosts rescan_elapsed) simp
qed

lemma rescan_SaveScan:
  "SaveScan rescan_env
     \<lparr>DateTime = ''2024-05-01T11:30:00Z'', Ports = [''10.0.0.1'' \<mapsto> [''80/tcp [open] (http)'']]\<rparr> sample_fs =
   (None, sample_fs\<lparr>files := (files sample_fs)(scanFile := None,
       backupScanFile \<mapsto> ''{datetime: 2024-05-01T10:00:00Z}'',
       scanFile \<mapsto> ''{datetime: 2024-05-01T11:30:00Z}'')\<rparr>)"
proof -
  have h1: "store_ready sample_fs"
    by (simp add: store_ready_def sample_fs_def scanFile_def backupScanFile_def scanFolder_def)
  have h2: "files sample_fs scanFile = Some ''{datetime: 2024-05-01T10:00:00Z}''"
    by (simp add: sample_fs_def)
  have h3: "marshal rescan_env \<lparr>DateTime = ''2024-05-01T11:30:00Z'', Ports = [''10.0.0.1'' \<mapsto> [''80/tcp [open] (http)'']]\<rparr>
      = Inr ''{datetime: 2024-05-01T11:30:00Z}''"
    by (simp add: rescan_env_def sample_env_def)
  show ?thesis using h1 h2 h3 by (rule SaveScan_ready)
qed

text \<open>
  C1. On a second run that finds the network unchanged (the stored snapshot and the new
  scan hold the same host with the same port, and both timestamps parse) the program prints
  \<open>No changes detected.\<close> and then saves the new snapshot all the same: the call of
  \<open>SaveScan\<close> at the end of \<open>main\<close> writes it to the current slot and moves the stored
  snapshot to the backup slot. So the new snapshot is persisted whether or not anything
  changed.
\<close>

theorem unchanged_run_is_saved:
  "fst (run_main rescan_env rescan_sched ''nmap -p-'' ''10.0.0.1'' sample_fs) =
     [''\<newline>--- Checking Previous Scan Data (Last scan was 1 hours, 30 minutes ago) ---\<newline>\<newline>'',
      ''No changes detected.\<newline>'',
      ''Scan completed and saved.\<newline>''] \<and>
   files sample_fs scanFile = Some ''{datetime: 2024-05-01T10:00:00Z}'' \<and>
   files sample_fs backupScanFile = None \<and>
   files (snd (run_main rescan_env rescan_sched ''nmap -p-'' ''10.0.0.1'' sample_fs)) scanFile =
     Some ''{datetime: 2024-05-01T11:30:00Z}'' \<and>
   files (snd (run_main rescan_env rescan_sched ''nmap -p-'' ''10.0.0.1'' sample_fs)) backupScanFile =
     Some ''{datetime: 2024-05-01T10:00:00Z}''"
  using slots_differ
  by (simp add: run_main_def rescan_RunScan rescan_Load rescan_CompareScans rescan_SaveScan Let_def)
     (simp add: sample_fs_def)

end
